theory Spec2Isabelle
  imports Main
begin

section \<open>Cache keys of \<open>ServiceApi\<close> (src/apis/ServiceApi.ts)\<close>

subsection \<open>Strings and numbers as the template literals render them\<close>

text \<open>
  A title is a \<open>string\<close>, read as ASCII text. \<open>toLowerCase\<close> moves the letters
  \<open>A\<close> .. \<open>Z\<close> to \<open>a\<close> .. \<open>z\<close> and leaves every other character alone; the class
  \<open>\w\<close> of a regular expression without the unicode flag is \<open>[A-Za-z0-9_]\<close>.
\<close>

definition toLowerCase_char :: "char \<Rightarrow> char" where
  "toLowerCase_char c =
     (let n = (of_char c :: nat) in if 65 \<le> n \<and> n \<le> 90 then char_of (n + 32) else c)"

definition toLowerCase :: "string \<Rightarrow> string" where
  "toLowerCase s = map toLowerCase_char s"

definition is_word_char :: "char \<Rightarrow> bool" where
  "is_word_char c =
     (let n = (of_char c :: nat) in
        (65 \<le> n \<and> n \<le> 90) \<or> (97 \<le> n \<and> n \<le> 122) \<or> (48 \<le> n \<and> n \<le> 57) \<or> n = 95)"

text \<open>\<open>s.replace(/[^\w]/g, '-')\<close>: every character outside \<open>\w\<close> becomes a dash.\<close>

definition replace_non_word :: "string \<Rightarrow> string" where
  "replace_non_word s = map (\<lambda>c. if is_word_char c then c else CHR ''-'') s"

text \<open>\<open>s.replace(/-+/g, '-')\<close>: every maximal run of dashes becomes one dash.\<close>

fun replace_dashes :: "string \<Rightarrow> string" where
  "replace_dashes (a # b # cs) =
     (if a = CHR ''-'' \<and> b = CHR ''-'' then replace_dashes (b # cs)
      else a # replace_dashes (b # cs))"
| "replace_dashes cs = cs"

text \<open>
  A number inside a template literal is rendered in decimal, with a leading minus sign when
  it is negative. The fields rendered here (season, episode, year) are integers, below
  \<open>10\<^sup>2\<^sup>1\<close> in absolute value, where JavaScript changes to the exponent notation.
\<close>

definition digit_char :: "nat \<Rightarrow> char" where
  "digit_char d = char_of (of_char CHR ''0'' + d)"

fun string_of_nat :: "nat \<Rightarrow> string" where
  "string_of_nat n =
     (if 10 \<le> n then string_of_nat (n div 10) @ [digit_char (n mod 10)]
      else [digit_char n])"

definition string_of_int :: "int \<Rightarrow> string" where
  "string_of_int i =
     (if i < 0 then CHR ''-'' # string_of_nat (nat (- i)) else string_of_nat (nat i))"

subsection \<open>Items\<close>

datatype ItemType = Show | Movie

record 'e TraktItem =
  entry :: 'e
  watchedAt :: "int option"

text \<open>
  \<open>item.trakt\<close> is \<open>undefined\<close> until a search has been made, \<open>null\<close> when the search
  found nothing, and a \<open>TraktItem\<close> otherwise.
\<close>

datatype 'e trakt_field = Undefined | Null | Trakt "'e TraktItem"

record 'e Item =
  type :: ItemType
  title :: string
  year :: "int option"
  season :: "int option"
  episode :: "int option"
  episodeTitle :: "string option"
  databaseId :: string
  trakt :: "'e trakt_field"

subsection \<open>\<open>getTraktCacheStr\<close> and \<open>getTraktCacheId\<close>\<close>

definition getTraktCacheStr :: "string \<Rightarrow> string" where
  "getTraktCacheStr title' = replace_dashes (replace_non_word (toLowerCase title'))"

text \<open>
  \<open>a ?? b\<close> takes \<open>b\<close> when \<open>a\<close> is undefined; \<open>item.year ? .. : ''\<close> tests the
  truthiness of the year, and the number \<open>0\<close> is falsy.
\<close>

definition getTraktCacheId :: "'e Item \<Rightarrow> string" where
  "getTraktCacheId item =
     (if type item = Show then
        ''/shows/'' @ getTraktCacheStr (title item)
        @ ''/seasons/'' @ string_of_int (case season item of None \<Rightarrow> 0 | Some s \<Rightarrow> s)
        @ ''/episodes/''
        @ (case episode item of
             Some e \<Rightarrow> string_of_int e
           | None \<Rightarrow> getTraktCacheStr (case episodeTitle item of None \<Rightarrow> ''0'' | Some t \<Rightarrow> t))
      else
        ''/movies/'' @ getTraktCacheStr (title item)
        @ (case year item of
             None \<Rightarrow> ''''
           | Some y \<Rightarrow> if y \<noteq> 0 then ''-'' @ string_of_int y else ''''))"

section \<open>The history engine: \<open>ServiceApi.loadHistory\<close>\<close>

subsection \<open>Errors, effects and state\<close>

text \<open>
  A thrown value is an \<open>error\<close>; \<open>(err as RequestException).canceled\<close> reads its
  \<open>canceled\<close> flag.
\<close>

datatype error = Error (canceled: bool) (message: string)

text \<open>
  The calls that leave the engine are recorded in a trace, in the order they are made:
  the page fetch and the conversion of the adapter, \<open>store.setData\<close>, \<open>Errors.error\<close>
  and \<open>EventDispatcher.dispatch\<close>.
\<close>

datatype ('r, 'i) effect =
    LoadHistoryItems
  | ConvertHistoryItems "'r list"
  | SetData "'i list" bool bool
  | ErrorsError string error
  | Dispatch string error

record flags =
  hasReachedEnd :: bool
  hasReachedLastSyncDate :: bool

record 'i SyncStoreData = flags +
  items :: "'i list"

text \<open>
  The \<open>ServiceApi\<close> object (\<open>leftoverHistoryItems\<close>, \<open>hasReachedHistoryEnd\<close> and, in
  \<open>sub\<close>, whatever fields the child class adds), the data of its sync store and the trace.
\<close>

record ('r, 's, 'i) world =
  leftoverHistoryItems :: "'r list"
  hasReachedHistoryEnd :: bool
  sub :: 's
  store_data :: "'i SyncStoreData"
  trace :: "('r, 'i) effect list"

text \<open>
  The three methods a child class overrides. \<open>loadHistoryItems\<close> reads and writes
  \<open>hasReachedHistoryEnd\<close> and the child's own fields (\<open>leftoverHistoryItems\<close> is private
  to the base class) and either returns a page or throws; the state it leaves behind is
  returned in both cases. \<open>isNewHistoryItem\<close> is a predicate on the entry and the watermark;
  \<open>convertHistoryItems\<close> returns the items or throws.
\<close>

record ('r, 's, 'i) methods =
  loadHistoryItems :: "bool \<Rightarrow> 's \<Rightarrow> (error + 'r list) \<times> bool \<times> 's"
  isNewHistoryItem :: "'r \<Rightarrow> int \<Rightarrow> string \<Rightarrow> bool"
  convertHistoryItems :: "'r list \<Rightarrow> error + 'i list"

abbreviation is_new :: "('r, 's, 'i) methods \<Rightarrow> int \<Rightarrow> string \<Rightarrow> 'r \<Rightarrow> bool" where
  "is_new A lastSync lastSyncId \<equiv> (\<lambda>x. isNewHistoryItem A x lastSync lastSyncId)"

text \<open>The variables of \<open>loadHistory\<close> that the loop updates.\<close>

record 'r locals = flags +
  itemsToLoad :: int
  historyItems :: "'r list"

subsection \<open>One iteration of the loop\<close>

text \<open>Lines 115-121: the page comes from the leftover buffer, or else from a fetch.\<close>

definition source_page ::
  "('r, 's, 'i) methods \<Rightarrow> ('r, 's, 'i) world \<Rightarrow> (error + 'r list) \<times> ('r, 's, 'i) world" where
  "source_page A w =
     (if length (leftoverHistoryItems w) > 0 then
        (Inr (leftoverHistoryItems w), w\<lparr>leftoverHistoryItems := []\<rparr>)
      else if \<not> hasReachedHistoryEnd w then
        (case loadHistoryItems A (hasReachedHistoryEnd w) (sub w) of
           (r, h, s) \<Rightarrow>
             (r, w\<lparr>hasReachedHistoryEnd := h, sub := s, trace := trace w @ [LoadHistoryItems]\<rparr>))
      else (Inr [], w))"

text \<open>
  Lines 125-133: the \<open>for\<close> loop over \<open>responseItems.entries()\<close>. \<open>index\<close> is the position
  of the entry at the head of \<open>rest\<close>; the second component of the result is the value of
  \<open>responseItems.slice(index)\<close> at the \<open>break\<close>, if the loop broke.
\<close>

fun scan_entries ::
  "('r \<Rightarrow> bool) \<Rightarrow> 'r list \<Rightarrow> nat \<Rightarrow> 'r list \<Rightarrow> 'r list \<Rightarrow> 'r list \<times> 'r list option" where
  "scan_entries isNew responseItems index [] filteredItems = (filteredItems, None)"
| "scan_entries isNew responseItems index (responseItem # rest) filteredItems =
     (if isNew responseItem
      then scan_entries isNew responseItems (Suc index) rest (filteredItems @ [responseItem])
      else (filteredItems, Some (drop index responseItems)))"

text \<open>Lines 123-136. A string is truthy when it is not empty.\<close>

definition filter_page ::
  "('r, 's, 'i) methods \<Rightarrow> int \<Rightarrow> string \<Rightarrow> 'r list \<Rightarrow> 'r list \<times> 'r list option" where
  "filter_page A lastSync lastSyncId responseItems =
     (if lastSync > 0 \<and> lastSyncId \<noteq> [] then
        scan_entries (\<lambda>x. isNewHistoryItem A x lastSync lastSyncId) responseItems 0 responseItems []
      else (responseItems, None))"

text \<open>Lines 122-139.\<close>

definition process_page ::
  "('r, 's, 'i) methods \<Rightarrow> int \<Rightarrow> string \<Rightarrow> 'r list \<Rightarrow> 'r locals \<times> ('r, 's, 'i) world
     \<Rightarrow> 'r locals \<times> ('r, 's, 'i) world" where
  "process_page A lastSync lastSyncId responseItems lw =
     (case lw of (l, w) \<Rightarrow>
        if length responseItems > 0 then
          (case filter_page A lastSync lastSyncId responseItems of
             (filteredItems, None) \<Rightarrow>
               (l\<lparr>itemsToLoad := itemsToLoad l - int (length filteredItems),
                   historyItems := historyItems l @ filteredItems\<rparr>, w)
           | (filteredItems, Some rest) \<Rightarrow>
               (l\<lparr>hasReachedLastSyncDate := True,
                   itemsToLoad := itemsToLoad l - int (length filteredItems),
                   historyItems := historyItems l @ filteredItems\<rparr>,
                w\<lparr>leftoverHistoryItems := rest\<rparr>))
        else (l, w))"

text \<open>Lines 115-140: the body of the \<open>do\<close> loop. A throw leaves the body at once.\<close>

definition loop_body ::
  "('r, 's, 'i) methods \<Rightarrow> int \<Rightarrow> string \<Rightarrow> 'r locals \<times> ('r, 's, 'i) world
     \<Rightarrow> (error + 'r locals) \<times> ('r, 's, 'i) world" where
  "loop_body A lastSync lastSyncId lw =
     (case source_page A (snd lw) of
        (Inl err, w1) \<Rightarrow> (Inl err, w1)
      | (Inr responseItems, w1) \<Rightarrow>
          (case process_page A lastSync lastSyncId responseItems (fst lw, w1) of
             (l2, w2) \<Rightarrow>
               (Inr (l2\<lparr>hasReachedEnd := hasReachedHistoryEnd w2 \<or> hasReachedLastSyncDate l2\<rparr>),
                w2)))"

subsection \<open>The loop and \<open>loadHistory\<close>\<close>

text \<open>
  Lines 114-141. The loop may run forever, so its value is an \<open>option\<close>: \<open>None\<close> when it
  never leaves, \<open>Some\<close> of the outcome (a throw, or the final variables) otherwise.
\<close>

partial_function (option) loadHistory_loop ::
  "('r, 's, 'i) methods \<Rightarrow> int \<Rightarrow> string \<Rightarrow> 'r locals \<times> ('r, 's, 'i) world
     \<Rightarrow> ((error + 'r locals) \<times> ('r, 's, 'i) world) option" where
  "loadHistory_loop A lastSync lastSyncId lw =
     (case loop_body A lastSync lastSyncId lw of
        (Inl err, w') \<Rightarrow> Some (Inl err, w')
      | (Inr l', w') \<Rightarrow>
          if \<not> hasReachedEnd l' \<and> itemsToLoad l' > 0
          then loadHistory_loop A lastSync lastSyncId (l', w')
          else Some (Inr l', w'))"

declare loadHistory_loop.simps [code]

text \<open>
  The variables and the state with which iteration \<open>k + 1\<close> of the loop starts, when the
  loop gets that far: \<open>None\<close> when one of the first \<open>k\<close> iterations throws or is the last.
\<close>

fun iteration_start ::
  "('r, 's, 'i) methods \<Rightarrow> int \<Rightarrow> string \<Rightarrow> nat \<Rightarrow> 'r locals \<times> ('r, 's, 'i) world
     \<Rightarrow> ('r locals \<times> ('r, 's, 'i) world) option" where
  "iteration_start A lastSync lastSyncId 0 lw = Some lw"
| "iteration_start A lastSync lastSyncId (Suc k) lw =
     (case loop_body A lastSync lastSyncId lw of
        (Inl err, w') \<Rightarrow> None
      | (Inr l', w') \<Rightarrow>
          if \<not> hasReachedEnd l' \<and> itemsToLoad l' > 0
          then iteration_start A lastSync lastSyncId k (l', w')
          else None)"

text \<open>
  Modelled from the spec: \<open>SyncStore.setData\<close> (the module stores/SyncStore is imported
  by ServiceApi.ts only) replaces the items of the store and updates its two flags.
\<close>

definition setData ::
  "'i list \<Rightarrow> bool \<Rightarrow> bool \<Rightarrow> ('r, 's, 'i) world \<Rightarrow> ('r, 's, 'i) world" where
  "setData its e d w =
     w\<lparr>store_data := \<lparr>hasReachedEnd = e, hasReachedLastSyncDate = d, items = its\<rparr>,
       trace := trace w @ [SetData its e d]\<rparr>"

text \<open>Lines 110-145: the \<open>try\<close> block.\<close>

definition loadHistory_try ::
  "('r, 's, 'i) methods \<Rightarrow> int \<Rightarrow> int \<Rightarrow> string \<Rightarrow> ('r, 's, 'i) world
     \<Rightarrow> ((error + unit) \<times> ('r, 's, 'i) world) option" where
  "loadHistory_try A n lastSync lastSyncId w =
     (case loadHistory_loop A lastSync lastSyncId
             (\<lparr>hasReachedEnd = hasReachedEnd (store_data w),
               hasReachedLastSyncDate = hasReachedLastSyncDate (store_data w),
               itemsToLoad = n, historyItems = []\<rparr>, w) of
        None \<Rightarrow> None
      | Some (Inl err, w1) \<Rightarrow> Some (Inl err, w1)
      | Some (Inr l, w1) \<Rightarrow>
          if length (historyItems l) > 0 then
            (case convertHistoryItems A (historyItems l) of
               Inl err \<Rightarrow>
                 Some (Inl err, w1\<lparr>trace := trace w1 @ [ConvertHistoryItems (historyItems l)]\<rparr>)
             | Inr its \<Rightarrow>
                 Some (Inr (),
                   setData its (hasReachedEnd l) (hasReachedLastSyncDate l)
                     (w1\<lparr>trace := trace w1 @ [ConvertHistoryItems (historyItems l)]\<rparr>)))
          else Some (Inr (), setData [] (hasReachedEnd l) (hasReachedLastSyncDate l) w1))"

text \<open>Lines 108-155: the \<open>catch\<close> reports an error that is not canceled and throws it again.\<close>

definition loadHistory ::
  "('r, 's, 'i) methods \<Rightarrow> int \<Rightarrow> int \<Rightarrow> string \<Rightarrow> ('r, 's, 'i) world
     \<Rightarrow> ((error + unit) \<times> ('r, 's, 'i) world) option" where
  "loadHistory A n lastSync lastSyncId w =
     (case loadHistory_try A n lastSync lastSyncId w of
        None \<Rightarrow> None
      | Some (Inr u, w1) \<Rightarrow> Some (Inr u, w1)
      | Some (Inl err, w1) \<Rightarrow>
          Some (Inl err,
            if \<not> canceled err then
              w1\<lparr>trace := trace w1 @ [ErrorsError ''Failed to load history.'' err,
                                       Dispatch ''SERVICE_HISTORY_LOAD_ERROR'' err]\<rparr>
            else w1))"

text \<open>Lines 162-164, 171-173 and 180-182: the methods of the base class.\<close>

definition base_methods :: "('r, 's, 'i) methods" where
  "base_methods =
     \<lparr>loadHistoryItems = (\<lambda>h s. (Inr [], h, s)),
      isNewHistoryItem = (\<lambda>x lastSync lastSyncId. True),
      convertHistoryItems = (\<lambda>xs. Inr [])\<rparr>"

section \<open>The catalog pipeline: \<open>loadTraktItemHistory\<close> and \<open>loadTraktHistory\<close>\<close>

subsection \<open>Collaborators\<close>

text \<open>
  \<open>TraktSearch.find\<close>, \<open>TraktItem.load\<close>, \<open>TraktItem.save\<close> and \<open>TraktSync.loadHistory\<close>
  live in other modules (apis/TraktSearch, models/TraktItem, apis/TraktSync); they are
  parameters. The search returns the new value
  of \<open>item.trakt\<close> or throws. \<open>TraktSync.loadHistory\<close> changes \<open>item.trakt\<close> in place
  and may throw after doing so: it returns the error, if any, and the \<open>TraktItem\<close> it
  leaves behind.
\<close>

record ('e, 'c, 'sv) services =
  TraktSearch_find :: "'e Item \<Rightarrow> 'c option \<Rightarrow> error + 'e trakt_field"
  TraktItem_load :: "'sv \<Rightarrow> 'e TraktItem"
  TraktItem_save :: "'e TraktItem \<Rightarrow> 'sv"
  TraktSync_loadHistory :: "'e Item \<Rightarrow> error option \<times> 'e TraktItem"

datatype ('e, 'c, 'sv) call =
    Find "'e Item" "'c option"
  | Load 'sv
  | SyncLoadHistory "'e Item"

text \<open>
  What one call of \<open>loadTraktItemHistory\<close> leaves behind: the item, the assignments it made
  to the shared \<open>traktCache\<close> object (key and value, in order) and the calls it made.
\<close>

record ('e, 'c, 'sv) resolution =
  item :: "'e Item"
  writes :: "(string \<times> 'sv) list"
  calls :: "('e, 'c, 'sv) call list"

text \<open>\<open>!item.trakt\<close>: \<open>undefined\<close> and \<open>null\<close> are falsy, an object is truthy.\<close>

fun truthy :: "'e trakt_field \<Rightarrow> bool" where
  "truthy (Trakt t) = True"
| "truthy Undefined = False"
| "truthy Null = False"

subsection \<open>\<open>loadTraktItemHistory\<close>\<close>

text \<open>
  Lines 78-84. The first component of the result is the error thrown, if any. In the
  \<open>else\<close> branch of the conditional expression \<open>cacheItem\<close> is defined.
\<close>

definition resolve_trakt ::
  "('e, 'c, 'sv) services \<Rightarrow> string \<Rightarrow> (string \<rightharpoonup> 'sv) \<Rightarrow> 'c option \<Rightarrow> ('e, 'c, 'sv) resolution
     \<Rightarrow> error option \<times> ('e, 'c, 'sv) resolution" where
  "resolve_trakt S cacheId traktCache correction st =
     (if \<not> truthy (trakt (item st)) then
        (let cacheItem = traktCache cacheId in
           if correction \<noteq> None \<or> cacheItem = None then
             (case TraktSearch_find S (item st) correction of
                Inl err \<Rightarrow> (Some err, st\<lparr>calls := calls st @ [Find (item st) correction]\<rparr>)
              | Inr t \<Rightarrow>
                  (None, st\<lparr>item := (item st)\<lparr>trakt := t\<rparr>,
                            calls := calls st @ [Find (item st) correction]\<rparr>))
           else
             (None, st\<lparr>item := (item st)\<lparr>trakt := Trakt (TraktItem_load S (the cacheItem))\<rparr>,
                       calls := calls st @ [Load (the cacheItem)]\<rparr>))
      else (None, st))"

text \<open>Lines 85-88.\<close>

definition load_watched ::
  "('e, 'c, 'sv) services \<Rightarrow> string \<Rightarrow> ('e, 'c, 'sv) resolution
     \<Rightarrow> error option \<times> ('e, 'c, 'sv) resolution" where
  "load_watched S cacheId st =
     (case trakt (item st) of
        Trakt t \<Rightarrow>
          if watchedAt t = None then
            (case TraktSync_loadHistory S (item st) of
               (Some err, t') \<Rightarrow>
                 (Some err, st\<lparr>item := (item st)\<lparr>trakt := Trakt t'\<rparr>,
                               calls := calls st @ [SyncLoadHistory (item st)]\<rparr>)
             | (None, t') \<Rightarrow>
                 (None, st\<lparr>item := (item st)\<lparr>trakt := Trakt t'\<rparr>,
                           writes := writes st @ [(cacheId, TraktItem_save S t')],
                           calls := calls st @ [SyncLoadHistory (item st)]\<rparr>))
          else (None, st)
      | _ \<Rightarrow> (None, st))"

text \<open>Lines 77-88: the \<open>try\<close> block.\<close>

definition loadTraktItemHistory_try ::
  "('e, 'c, 'sv) services \<Rightarrow> 'e Item \<Rightarrow> (string \<rightharpoonup> 'sv) \<Rightarrow> 'c option
     \<Rightarrow> error option \<times> ('e, 'c, 'sv) resolution" where
  "loadTraktItemHistory_try S it traktCache correction =
     (let cacheId = getTraktCacheId it in
        case resolve_trakt S cacheId traktCache correction \<lparr>item = it, writes = [], calls = []\<rparr> of
          (Some err, st) \<Rightarrow> (Some err, st)
        | (None, st) \<Rightarrow> load_watched S cacheId st)"

text \<open>Lines 89-93: \<open>delete item.trakt.watchedAt\<close> when \<open>item.trakt\<close> is set.\<close>

definition delete_watchedAt :: "'e Item \<Rightarrow> 'e Item" where
  "delete_watchedAt it =
     (case trakt it of Trakt t \<Rightarrow> it\<lparr>trakt := Trakt (t\<lparr>watchedAt := None\<rparr>)\<rparr> | _ \<Rightarrow> it)"

text \<open>
  Lines 71-94. The first component is the error the returned promise rejects with; the
  \<open>catch\<close> has no \<open>throw\<close>.
\<close>

definition loadTraktItemHistory ::
  "('e, 'c, 'sv) services \<Rightarrow> 'e Item \<Rightarrow> (string \<rightharpoonup> 'sv) \<Rightarrow> 'c option
     \<Rightarrow> error option \<times> ('e, 'c, 'sv) resolution" where
  "loadTraktItemHistory S it traktCache correction =
     (case loadTraktItemHistory_try S it traktCache correction of
        (None, st) \<Rightarrow> (None, st)
      | (Some err, st) \<Rightarrow> (None, st\<lparr>item := delete_watchedAt (item st)\<rparr>))"

subsection \<open>\<open>loadTraktHistory\<close>\<close>

text \<open>
  \<open>BrowserStorage.get\<close> returns the stored corrections and cache, each possibly missing,
  or throws; \<open>BrowserStorage.set\<close> may throw.
\<close>

record ('c, 'sv) storage_values =
  corrections :: "(string \<rightharpoonup> 'c) option"
  stored_traktCache :: "(string \<rightharpoonup> 'sv) option"

record ('c, 'sv) browser =
  BrowserStorage_get :: "error + ('c, 'sv) storage_values"
  BrowserStorage_set :: "(string \<rightharpoonup> 'sv) \<Rightarrow> error option"

text \<open>
  The outcome of a batch: the items as the calls left them, the resolution of each missing
  item, the cache handed to \<open>BrowserStorage.set\<close> when that call was made and returned,
  and the arguments of \<open>Errors.error\<close> and \<open>EventDispatcher.dispatch\<close>.
\<close>

record ('e, 'c, 'sv) batch =
  batch_items :: "'e Item list"
  resolutions :: "('e, 'c, 'sv) resolution list"
  persisted :: "(string \<rightharpoonup> 'sv) option"
  reported :: "(string \<times> error) list"
  dispatched :: "(string \<times> error) list"

text \<open>Lines 38-42: the filter of the missing items.\<close>

definition is_missing :: "'e Item \<Rightarrow> bool" where
  "is_missing it =
     (case trakt it of Undefined \<Rightarrow> True | Null \<Rightarrow> False | Trakt t \<Rightarrow> watchedAt t = None)"

text \<open>\<open>Promise.all\<close> rejects with the error of a promise that rejects.\<close>

fun first_rejection :: "(error option \<times> 'a) list \<Rightarrow> error option" where
  "first_rejection [] = None"
| "first_rejection ((Some err, x) # rs) = Some err"
| "first_rejection ((None, x) # rs) = first_rejection rs"

fun apply_writes :: "(string \<times> 'sv) list \<Rightarrow> (string \<rightharpoonup> 'sv) \<Rightarrow> (string \<rightharpoonup> 'sv)" where
  "apply_writes [] m = m"
| "apply_writes ((k, v) # kvs) m = apply_writes kvs (m(k \<mapsto> v))"

text \<open>Lines 61-68: the \<open>catch\<close> of the batch.\<close>

definition batch_catch :: "error \<Rightarrow> ('e, 'c, 'sv) batch \<Rightarrow> ('e, 'c, 'sv) batch" where
  "batch_catch err b =
     (if \<not> canceled err then
        b\<lparr>reported := reported b @ [(''Failed to load Trakt history.'', err)],
          dispatched := dispatched b @ [(''TRAKT_HISTORY_LOAD_ERROR'', err)]\<rparr>
      else b)"

text \<open>
  Lines 37-69. Every call of \<open>loadTraktItemHistory\<close> runs up to its first \<open>await\<close> inside
  the \<open>for\<close> loop, and it reads \<open>traktCache[cacheId]\<close> before that point and assigns to
  \<open>traktCache\<close> only after \<open>await TraktSync.loadHistory\<close>: all the calls of a batch read
  the cache as it was loaded. Their assignments land in the order the calls complete; the
  model applies them in the order of the items.
\<close>

definition loadTraktHistory ::
  "('e, 'c, 'sv) services \<Rightarrow> ('c, 'sv) browser \<Rightarrow> 'e Item list \<Rightarrow> ('e, 'c, 'sv) batch" where
  "loadTraktHistory S B its =
     (let missingItems = filter is_missing its;
          b0 = \<lparr>batch_items = its, resolutions = [], persisted = None,
                reported = [], dispatched = []\<rparr>
      in
        if length missingItems = 0 then b0
        else
          (case BrowserStorage_get B of
             Inl err \<Rightarrow> batch_catch err b0
           | Inr storage \<Rightarrow>
               (let traktCache =
                      (case stored_traktCache storage of None \<Rightarrow> Map.empty | Some c \<Rightarrow> c);
                    correction_of = (\<lambda>it.
                      case corrections storage of None \<Rightarrow> None | Some cs \<Rightarrow> cs (databaseId it));
                    run = (\<lambda>it. loadTraktItemHistory S it traktCache (correction_of it));
                    promises = map run missingItems;
                    b1 = b0\<lparr>batch_items :=
                              map (\<lambda>it. if is_missing it then item (snd (run it)) else it) its,
                            resolutions := map snd promises\<rparr>
                in
                  case first_rejection promises of
                    Some err \<Rightarrow> batch_catch err b1
                  | None \<Rightarrow>
                      (let traktCache' =
                             apply_writes (concat (map (\<lambda>p. writes (snd p)) promises)) traktCache
                       in
                         case BrowserStorage_set B traktCache' of
                           Some err \<Rightarrow> batch_catch err b1
                         | None \<Rightarrow> b1\<lparr>persisted := Some traktCache'\<rparr>))))"

section \<open>Adapters and services used in the examples\<close>

text \<open>
  A scripted adapter: raw entries are numbers (their time stamps), the child state is the
  list of the outcomes of the fetches still to come, the end is flagged with the last of
  them, an entry is new when it is later than \<open>lastSync\<close>, and the conversion throws a
  canceled error on a batch that holds the entry \<open>0\<close>.
\<close>

definition scripted :: "(nat, (error + nat list) list, nat) methods" where
  "scripted =
     \<lparr>loadHistoryItems =
        (\<lambda>h s. case s of [] \<Rightarrow> (Inr [], True, []) | r # rs \<Rightarrow> (r, rs = [], rs)),
      isNewHistoryItem = (\<lambda>x lastSync lastSyncId. lastSync < int x),
      convertHistoryItems =
        (\<lambda>xs. if 0 \<in> set xs then Inl (Error True ''aborted'') else Inr xs)\<rparr>"

definition scripted_world ::
  "nat list \<Rightarrow> (error + nat list) list \<Rightarrow> (nat, (error + nat list) list, nat) world" where
  "scripted_world left script =
     \<lparr>leftoverHistoryItems = left, hasReachedHistoryEnd = False, sub = script,
      store_data = \<lparr>hasReachedEnd = False, hasReachedLastSyncDate = False, items = []\<rparr>,
      trace = []\<rparr>"

definition start_locals :: "int \<Rightarrow> nat locals" where
  "start_locals n =
     \<lparr>hasReachedEnd = False, hasReachedLastSyncDate = False, itemsToLoad = n,
      historyItems = []\<rparr>"

text \<open>The same adapter with a conversion whose error is not a canceled one.\<close>

definition scripted_strict :: "(nat, (error + nat list) list, nat) methods" where
  "scripted_strict =
     scripted\<lparr>convertHistoryItems :=
        (\<lambda>xs. if 0 \<in> set xs then Inl (Error False ''bad entry'') else Inr xs)\<rparr>"

text \<open>
  Example services: the catalog entry is a string, a saved item is the pair of its fields,
  the search throws for the title \<open>fail\<close> and finds nothing for the title \<open>none\<close>, and the
  history service throws for the title \<open>late\<close> after it has set \<open>watchedAt\<close>.
\<close>

definition example_services :: "(string, string, string \<times> int option) services" where
  "example_services =
     \<lparr>TraktSearch_find =
        (\<lambda>it c. if title it = ''fail'' then Inl (Error False ''search failed'')
                else if title it = ''none'' then Inr Null
                else Inr (Trakt \<lparr>entry = (case c of None \<Rightarrow> ''found:'' @ title it
                                                  | Some x \<Rightarrow> ''corrected:'' @ x),
                                 watchedAt = None\<rparr>)),
      TraktItem_load = (\<lambda>sv. \<lparr>entry = fst sv, watchedAt = snd sv\<rparr>),
      TraktItem_save = (\<lambda>t. (entry t, watchedAt t)),
      TraktSync_loadHistory =
        (\<lambda>it. case trakt it of
                 Trakt t \<Rightarrow>
                   (if title it = ''late'' then Some (Error False ''history failed'') else None,
                    t\<lparr>watchedAt := Some 1000\<rparr>)
               | _ \<Rightarrow> (Some (Error False ''no catalog entry''), \<lparr>entry = [], watchedAt = None\<rparr>))\<rparr>"

definition movie :: "string \<Rightarrow> string \<Rightarrow> string Item" where
  "movie t i =
     \<lparr>type = Movie, title = t, year = None, season = None, episode = None,
      episodeTitle = None, databaseId = i, trakt = Undefined\<rparr>"

definition example_browser :: "(string, string \<times> int option) browser" where
  "example_browser =
     \<lparr>BrowserStorage_get =
        Inr \<lparr>corrections = Some [''db2'' \<mapsto> ''tt2''],
             stored_traktCache = Some [''/movies/heat'' \<mapsto> (''cached:heat'', None)]\<rparr>,
      BrowserStorage_set = (\<lambda>c. None)\<rparr>"

text \<open>Example items: two records of one film from two services, a film of year \<open>0\<close>.\<close>

definition heat_1995 :: "string Item" where
  "heat_1995 = (movie ''Heat'' ''netflix-1'')\<lparr>year := Some 1995\<rparr>"

definition heat_1995_other :: "string Item" where
  "heat_1995_other = (movie ''Heat'' ''prime-7'')\<lparr>year := Some 1995, trakt := Null\<rparr>"

definition zero_year_movie :: "string Item" where
  "zero_year_movie = (movie ''Heat'' ''db'')\<lparr>year := Some 0\<rparr>"

definition wire_episode :: "string Item" where
  "wire_episode =
     \<lparr>type = Show, title = ''The Wire!!'', year = None, season = Some 2, episode = None,
      episodeTitle = Some ''Ep One'', databaseId = ''hbo-3'', trakt = Undefined\<rparr>"

section \<open>The specification's wording of the cache key\<close>

text \<open>
  The slug as the specification words it: lowercase, then every run of characters outside
  \<open>\w\<close> becomes a single dash.
\<close>

function replace_runs :: "string \<Rightarrow> string" where
  "replace_runs [] = []"
| "replace_runs (c # cs) =
     (if is_word_char c then c # replace_runs cs
      else CHR ''-'' # replace_runs (dropWhile (\<lambda>d. \<not> is_word_char d) cs))"
  by pat_completeness auto
termination
  by (relation "measure length") (auto simp add: less_Suc_eq_le length_dropWhile_le)

definition slug_spec :: "string \<Rightarrow> string" where
  "slug_spec s = replace_runs (toLowerCase s)"

text \<open>
  The cache key as the specification words it: for a movie the year follows, after a dash,
  whenever the item has a year.
\<close>

definition cacheKey_spec :: "'e Item \<Rightarrow> string" where
  "cacheKey_spec it =
     (case type it of
        Show \<Rightarrow>
          ''/shows/'' @ getTraktCacheStr (title it)
          @ ''/seasons/'' @ string_of_int (case season it of Some s \<Rightarrow> s | None \<Rightarrow> 0)
          @ ''/episodes/''
          @ (case episode it of
               Some e \<Rightarrow> string_of_int e
             | None \<Rightarrow> getTraktCacheStr (case episodeTitle it of Some t \<Rightarrow> t | None \<Rightarrow> ''0''))
      | Movie \<Rightarrow>
          ''/movies/'' @ getTraktCacheStr (title it)
          @ (case year it of Some y \<Rightarrow> ''-'' @ string_of_int y | None \<Rightarrow> []))"

section \<open>Properties\<close>

subsection \<open>The slug\<close>

lemma is_word_char_dash [simp]: "\<not> is_word_char CHR ''-''"
  by (simp add: is_word_char_def)

lemma replace_dashes_other:
  "a \<noteq> CHR ''-'' \<Longrightarrow> replace_dashes (a # xs) = a # replace_dashes xs"
  by (cases xs) simp_all

lemma replace_dashes_run:
  "replace_dashes (CHR ''-'' # replace_non_word cs) =
     CHR ''-'' # replace_dashes (replace_non_word (dropWhile (\<lambda>d. \<not> is_word_char d) cs))"
proof (induction cs)
  case Nil
  show ?case by (simp add: replace_non_word_def)
next
  case (Cons d ds)
  show ?case
  proof (cases "is_word_char d")
    case True
    then have "d \<noteq> CHR ''-''" by auto
    with True show ?thesis by (simp add: replace_non_word_def)
  next
    case False
    with Cons show ?thesis by (simp add: replace_non_word_def)
  qed
qed

lemma replace_dashes_non_word: "replace_dashes (replace_non_word s) = replace_runs s"
proof (induction s rule: replace_runs.induct)
  case 1
  show ?case by (simp add: replace_non_word_def)
next
  case (2 c cs)
  show ?case
  proof (cases "is_word_char c")
    case True
    then have "c \<noteq> CHR ''-''" by auto
    then have "replace_dashes (c # replace_non_word cs) = c # replace_dashes (replace_non_word cs)"
      by (rule replace_dashes_other)
    with True 2(1) show ?thesis by (simp add: replace_non_word_def)
  next
    case False
    have "replace_non_word (c # cs) = CHR ''-'' # replace_non_word cs"
      using False by (simp add: replace_non_word_def)
    with False 2(2) replace_dashes_run [of cs] show ?thesis by simp
  qed
qed

text \<open>
  C9, as stated: the slug of \<open>The Wire!!\<close> is \<open>the-wire\<close> and the slug of \<open>A  B_C\<close> is
  \<open>a-b-c\<close>. Neither holds: the run \<open>!!\<close> at the end becomes a dash of its own, and the
  underscore is a word character and stays.
\<close>

theorem slug_examples_counterexample:
  "getTraktCacheStr ''The Wire!!'' \<noteq> ''the-wire'' \<and> getTraktCacheStr ''A  B_C'' \<noteq> ''a-b-c''"
  by code_simp

text \<open>
  C9, amended: \<open>getTraktCacheStr\<close> lowercases its input and replaces every maximal run of
  characters outside \<open>[A-Za-z0-9_]\<close> with a single dash, also at the start and at the end
  of the input; the slug of \<open>The Wire!!\<close> is \<open>the-wire-\<close> and the slug of \<open>A  B_C\<close> is
  \<open>a-b_c\<close>.
\<close>

theorem slug_replaces_runs:
  "getTraktCacheStr s = slug_spec s \<and>
   getTraktCacheStr ''The Wire!!'' = ''the-wire-'' \<and>
   getTraktCacheStr ''A  B_C'' = ''a-b_c''"
proof -
  have "getTraktCacheStr s = slug_spec s"
    by (simp add: getTraktCacheStr_def slug_spec_def replace_dashes_non_word)
  moreover have "getTraktCacheStr ''The Wire!!'' = ''the-wire-''" by code_simp
  moreover have "getTraktCacheStr ''A  B_C'' = ''a-b_c''" by code_simp
  ultimately show ?thesis by simp
qed

subsection \<open>The cache key\<close>

text \<open>
  C8, as stated: for a movie the key is \<open>/movies/\<close> and the slug of the title, followed by a
  dash and the year exactly when the year is present. For a movie of year \<open>0\<close> the year is
  present and the key has no suffix.
\<close>

theorem cache_key_year_counterexample:
  "year zero_year_movie = Some 0 \<and>
   getTraktCacheId zero_year_movie = ''/movies/heat'' \<and>
   cacheKey_spec zero_year_movie = ''/movies/heat-0''"
  by code_simp

text \<open>
  C8, amended: the key of a show is \<open>/shows/\<close>, the slug of the title, \<open>/seasons/\<close>, the
  season or \<open>0\<close>, \<open>/episodes/\<close> and the episode or else the slug of the episode title or of
  \<open>0\<close>; the key of a movie is \<open>/movies/\<close> and the slug of the title, followed by a dash and
  the year exactly when the year is present and is not \<open>0\<close>; the key depends on these
  fields only.
\<close>

theorem cache_key_format:
  "(year it \<noteq> Some 0 \<or> type it = Show \<longrightarrow> getTraktCacheId it = cacheKey_spec it) \<and>
   (type it = Movie \<and> year it = Some 0 \<longrightarrow>
      getTraktCacheId it = ''/movies/'' @ getTraktCacheStr (title it)) \<and>
   (type it = type it' \<and> title it = title it' \<and>
    (type it = Show \<longrightarrow> season it = season it' \<and> episode it = episode it' \<and>
       (episode it = None \<longrightarrow> episodeTitle it = episodeTitle it')) \<and>
    (type it = Movie \<longrightarrow> year it = year it')
    \<longrightarrow> getTraktCacheId it = getTraktCacheId it')"
  by (cases "type it"; cases "type it'")
     (auto simp add: getTraktCacheId_def cacheKey_spec_def split: option.splits)

theorem cache_key_format_witness:
  "getTraktCacheId heat_1995 = cacheKey_spec heat_1995 \<and>
   cacheKey_spec heat_1995 = ''/movies/heat-1995'' \<and>
   getTraktCacheId heat_1995 = getTraktCacheId heat_1995_other \<and>
   databaseId heat_1995 \<noteq> databaseId heat_1995_other \<and>
   getTraktCacheId zero_year_movie = ''/movies/'' @ getTraktCacheStr (title zero_year_movie) \<and>
   getTraktCacheId wire_episode = cacheKey_spec wire_episode \<and>
   cacheKey_spec wire_episode = ''/shows/the-wire-/seasons/2/episodes/ep-one''"
proof -
  have a: "year heat_1995 \<noteq> Some 0 \<or> type heat_1995 = Show"
    by (simp add: heat_1995_def)
  have b: "type heat_1995 = type heat_1995_other \<and> title heat_1995 = title heat_1995_other \<and>
    (type heat_1995 = Show \<longrightarrow> season heat_1995 = season heat_1995_other \<and>
       episode heat_1995 = episode heat_1995_other \<and>
       (episode heat_1995 = None \<longrightarrow> episodeTitle heat_1995 = episodeTitle heat_1995_other)) \<and>
    (type heat_1995 = Movie \<longrightarrow> year heat_1995 = year heat_1995_other)"
    by (simp add: heat_1995_def heat_1995_other_def movie_def)
  have c: "type zero_year_movie = Movie \<and> year zero_year_movie = Some 0"
    by (simp add: zero_year_movie_def movie_def)
  have d: "year wire_episode \<noteq> Some 0 \<or> type wire_episode = Show"
    by (simp add: wire_episode_def)
  have k1: "getTraktCacheId heat_1995 = cacheKey_spec heat_1995"
    using cache_key_format [of heat_1995 heat_1995_other] a by blast
  have k2: "getTraktCacheId heat_1995 = getTraktCacheId heat_1995_other"
    using cache_key_format [of heat_1995 heat_1995_other] b by blast
  have k3: "getTraktCacheId zero_year_movie = ''/movies/'' @ getTraktCacheStr (title zero_year_movie)"
    using cache_key_format [of zero_year_movie zero_year_movie] c by blast
  have k4: "getTraktCacheId wire_episode = cacheKey_spec wire_episode"
    using cache_key_format [of wire_episode wire_episode] d by blast
  have e: "cacheKey_spec heat_1995 = ''/movies/heat-1995''" by code_simp
  have f: "cacheKey_spec wire_episode = ''/shows/the-wire-/seasons/2/episodes/ep-one''"
    by code_simp
  have g: "databaseId heat_1995 \<noteq> databaseId heat_1995_other"
    by (simp add: heat_1995_def heat_1995_other_def movie_def)
  from k1 e k2 g k3 k4 f show ?thesis by blast
qed

subsection \<open>The scan of a page against the watermark\<close>

lemma scan_entries_eq:
  "drop index responseItems = rest \<Longrightarrow>
   scan_entries P responseItems index rest filteredItems =
     (filteredItems @ takeWhile P rest,
      if \<forall>x\<in>set rest. P x then None else Some (dropWhile P rest))"
proof (induction rest arbitrary: index filteredItems)
  case Nil
  then show ?case by simp
next
  case (Cons x rest)
  have "drop (Suc index) responseItems = rest"
    using Cons.prems by (metis drop_Suc list.sel(3) tl_drop)
  from Cons.IH [OF this] Cons.prems show ?case by simp
qed

lemma filter_page_watermark:
  "0 < lastSync \<Longrightarrow> lastSyncId \<noteq> [] \<Longrightarrow>
   filter_page A lastSync lastSyncId page =
     (takeWhile (is_new A lastSync lastSyncId) page,
      if \<forall>x\<in>set page. is_new A lastSync lastSyncId x then None
      else Some (dropWhile (is_new A lastSync lastSyncId) page))"
  by (simp add: filter_page_def scan_entries_eq)

lemma process_page_watermark:
  assumes "0 < lastSync" "lastSyncId \<noteq> []"
  shows "process_page A lastSync lastSyncId page (l, w) =
     (if \<forall>x\<in>set page. is_new A lastSync lastSyncId x then
        (l\<lparr>itemsToLoad := itemsToLoad l - int (length page),
           historyItems := historyItems l @ page\<rparr>, w)
      else
        (l\<lparr>hasReachedLastSyncDate := True,
           itemsToLoad := itemsToLoad l - int (length (takeWhile (is_new A lastSync lastSyncId) page)),
           historyItems := historyItems l @ takeWhile (is_new A lastSync lastSyncId) page\<rparr>,
         w\<lparr>leftoverHistoryItems := dropWhile (is_new A lastSync lastSyncId) page\<rparr>))"
proof (cases "page = []")
  case True
  then show ?thesis by (simp add: process_page_def)
next
  case False
  show ?thesis
  proof (cases "\<forall>x\<in>set page. is_new A lastSync lastSyncId x")
    case True
    then have tw: "takeWhile (is_new A lastSync lastSyncId) page = page"
      by (simp add: takeWhile_eq_all_conv)
    have "process_page A lastSync lastSyncId page (l, w) =
        (l\<lparr>itemsToLoad := itemsToLoad l - int (length (takeWhile (is_new A lastSync lastSyncId) page)),
           historyItems := historyItems l @ takeWhile (is_new A lastSync lastSyncId) page\<rparr>, w)"
      using True False assms by (simp add: process_page_def filter_page_watermark)
    then have "process_page A lastSync lastSyncId page (l, w) =
        (l\<lparr>itemsToLoad := itemsToLoad l - int (length page),
           historyItems := historyItems l @ page\<rparr>, w)"
      unfolding tw .
    with True show ?thesis by simp
  next
    case all: False
    with False assms show ?thesis
      by (auto simp add: process_page_def filter_page_watermark)
  qed
qed

lemma process_page_accepts_new:
  assumes "0 < lastSync" "lastSyncId \<noteq> []"
    and "\<forall>x\<in>set (historyItems l). is_new A lastSync lastSyncId x"
  shows "\<forall>x\<in>set (historyItems (fst (process_page A lastSync lastSyncId page (l, w)))).
           is_new A lastSync lastSyncId x"
  using assms by (auto simp add: process_page_watermark dest: set_takeWhileD)

lemma loop_body_Inr:
  assumes "loop_body A lastSync lastSyncId lw = (Inr l', w')"
  shows "\<exists>page w1. source_page A (snd lw) = (Inr page, w1) \<and>
           w' = snd (process_page A lastSync lastSyncId page (fst lw, w1)) \<and>
           l' = (fst (process_page A lastSync lastSyncId page (fst lw, w1)))
                  \<lparr>hasReachedEnd := hasReachedHistoryEnd w' \<or>
                     hasReachedLastSyncDate (fst (process_page A lastSync lastSyncId page (fst lw, w1)))\<rparr>"
  using assms by (auto simp add: loop_body_def split: prod.splits sum.splits)

lemma loop_body_accepts_new:
  assumes "0 < lastSync" "lastSyncId \<noteq> []"
    and "\<forall>x\<in>set (historyItems (fst lw)). is_new A lastSync lastSyncId x"
    and "loop_body A lastSync lastSyncId lw = (Inr l', w')"
  shows "\<forall>x\<in>set (historyItems l'). is_new A lastSync lastSyncId x"
proof -
  from loop_body_Inr [OF assms(4)] obtain page w1 where
    l': "l' = (fst (process_page A lastSync lastSyncId page (fst lw, w1)))
                  \<lparr>hasReachedEnd := hasReachedHistoryEnd w' \<or>
                     hasReachedLastSyncDate (fst (process_page A lastSync lastSyncId page (fst lw, w1)))\<rparr>"
    by blast
  have "historyItems l' = historyItems (fst (process_page A lastSync lastSyncId page (fst lw, w1)))"
    by (subst l') simp
  with process_page_accepts_new [OF assms(1-3), of page w1] show ?thesis by simp
qed

lemma loop_accepts_new:
  assumes run: "loadHistory_loop A lastSync lastSyncId lw = Some y"
  shows "0 < lastSync \<longrightarrow> lastSyncId \<noteq> [] \<longrightarrow>
         (\<forall>x\<in>set (historyItems (fst lw)). is_new A lastSync lastSyncId x) \<longrightarrow>
         (\<forall>l'. fst y = Inr l' \<longrightarrow> (\<forall>x\<in>set (historyItems l'). is_new A lastSync lastSyncId x))"
proof (rule loadHistory_loop.raw_induct [where P = "\<lambda>A lastSync lastSyncId lw y.
         0 < lastSync \<longrightarrow> lastSyncId \<noteq> [] \<longrightarrow>
         (\<forall>x\<in>set (historyItems (fst lw)). is_new A lastSync lastSyncId x) \<longrightarrow>
         (\<forall>l'. fst y = Inr l' \<longrightarrow> (\<forall>x\<in>set (historyItems l'). is_new A lastSync lastSyncId x))",
       OF _ run])
  fix loop :: "('a, 'b, 'c) methods \<Rightarrow> int \<Rightarrow> string \<Rightarrow> 'a locals \<times> ('a, 'b, 'c) world
                 \<Rightarrow> ((error + 'a locals) \<times> ('a, 'b, 'c) world) option"
    and A :: "('a, 'b, 'c) methods" and lastSync lastSyncId lw y
  assume IH: "\<And>A lastSync lastSyncId lw y. loop A lastSync lastSyncId lw = Some y \<Longrightarrow>
         0 < lastSync \<longrightarrow> lastSyncId \<noteq> [] \<longrightarrow>
         (\<forall>x\<in>set (historyItems (fst lw)). is_new A lastSync lastSyncId x) \<longrightarrow>
         (\<forall>l'. fst y = Inr l' \<longrightarrow> (\<forall>x\<in>set (historyItems l'). is_new A lastSync lastSyncId x))"
    and step: "(case loop_body A lastSync lastSyncId lw of
                  (Inl err, w') \<Rightarrow> Some (Inl err, w')
                | (Inr l', w') \<Rightarrow>
                    if \<not> hasReachedEnd l' \<and> itemsToLoad l' > 0
                    then loop A lastSync lastSyncId (l', w')
                    else Some (Inr l', w')) = Some y"
  show "0 < lastSync \<longrightarrow> lastSyncId \<noteq> [] \<longrightarrow>
         (\<forall>x\<in>set (historyItems (fst lw)). is_new A lastSync lastSyncId x) \<longrightarrow>
         (\<forall>l'. fst y = Inr l' \<longrightarrow> (\<forall>x\<in>set (historyItems l'). is_new A lastSync lastSyncId x))"
  proof (intro impI allI)
    fix l'
    assume h: "0 < lastSync" "lastSyncId \<noteq> []"
      "\<forall>x\<in>set (historyItems (fst lw)). is_new A lastSync lastSyncId x"
      and y: "fst y = Inr l'"
    obtain r w1 where b: "loop_body A lastSync lastSyncId lw = (r, w1)"
      by (cases "loop_body A lastSync lastSyncId lw")
    show "\<forall>x\<in>set (historyItems l'). is_new A lastSync lastSyncId x"
    proof (cases r)
      case (Inl e)
      with step b y show ?thesis by auto
    next
      case (Inr l1)
      have n1: "\<forall>x\<in>set (historyItems l1). is_new A lastSync lastSyncId x"
        using loop_body_accepts_new [OF h] b Inr by simp
      show ?thesis
      proof (cases "\<not> hasReachedEnd l1 \<and> 0 < itemsToLoad l1")
        case True
        with step b Inr have "loop A lastSync lastSyncId (l1, w1) = Some y" by simp
        from IH [OF this] h(1,2) n1 y show ?thesis by simp
      next
        case False
        with step b Inr y n1 show ?thesis by auto
      qed
    qed
  qed
qed

text \<open>
  C1: in a call with \<open>lastSync > 0\<close> and a non-empty \<open>lastSyncId\<close>, the entries of a page
  are accepted in order while \<open>isNewHistoryItem\<close> holds; at the first entry for which it
  fails, that entry and the rest of the page become the leftover buffer,
  \<open>hasReachedLastSyncDate\<close> is set and the scan of the page stops. No entry for which
  \<open>isNewHistoryItem\<close> fails enters the accumulated list, in any number of iterations.
\<close>

theorem watermark_scan:
  assumes "0 < lastSync" and "lastSyncId \<noteq> []"
  shows "process_page A lastSync lastSyncId page (l, w) =
           (if \<forall>x\<in>set page. is_new A lastSync lastSyncId x then
              (l\<lparr>itemsToLoad := itemsToLoad l - int (length page),
                 historyItems := historyItems l @ page\<rparr>, w)
            else
              (l\<lparr>hasReachedLastSyncDate := True,
                 itemsToLoad :=
                   itemsToLoad l - int (length (takeWhile (is_new A lastSync lastSyncId) page)),
                 historyItems := historyItems l @ takeWhile (is_new A lastSync lastSyncId) page\<rparr>,
               w\<lparr>leftoverHistoryItems := dropWhile (is_new A lastSync lastSyncId) page\<rparr>))
         \<and> (\<forall>l' w'. loadHistory_loop A lastSync lastSyncId (l, w) = Some (Inr l', w') \<and>
                 (\<forall>x\<in>set (historyItems l). is_new A lastSync lastSyncId x)
               \<longrightarrow> (\<forall>x\<in>set (historyItems l'). is_new A lastSync lastSyncId x))"
proof (intro conjI allI impI)
  show "process_page A lastSync lastSyncId page (l, w) =
           (if \<forall>x\<in>set page. is_new A lastSync lastSyncId x then
              (l\<lparr>itemsToLoad := itemsToLoad l - int (length page),
                 historyItems := historyItems l @ page\<rparr>, w)
            else
              (l\<lparr>hasReachedLastSyncDate := True,
                 itemsToLoad :=
                   itemsToLoad l - int (length (takeWhile (is_new A lastSync lastSyncId) page)),
                 historyItems := historyItems l @ takeWhile (is_new A lastSync lastSyncId) page\<rparr>,
               w\<lparr>leftoverHistoryItems := dropWhile (is_new A lastSync lastSyncId) page\<rparr>))"
    by (rule process_page_watermark [OF assms])
next
  fix l' w'
  assume h: "loadHistory_loop A lastSync lastSyncId (l, w) = Some (Inr l', w') \<and>
                 (\<forall>x\<in>set (historyItems l). is_new A lastSync lastSyncId x)"
  from loop_accepts_new [of A lastSync lastSyncId "(l, w)" "(Inr l', w')"] h assms
  show "\<forall>x\<in>set (historyItems l'). is_new A lastSync lastSyncId x" by simp
qed

theorem watermark_scan_witness:
  "process_page scripted 3 ''id'' [5, 2, 7] (start_locals 10, scripted_world [] []) =
     ((start_locals 10)\<lparr>hasReachedLastSyncDate := True, itemsToLoad := 9, historyItems := [5]\<rparr>,
      (scripted_world [] [])\<lparr>leftoverHistoryItems := [2, 7]\<rparr>)
   \<and> loadHistory_loop scripted 3 ''id''
        (start_locals 10, scripted_world [] [Inr [6, 5], Inr [4, 2, 7], Inr [1]]) =
      Some (Inr \<lparr>hasReachedEnd = True, hasReachedLastSyncDate = True, itemsToLoad = 7,
                 historyItems = [6, 5, 4]\<rparr>,
            (scripted_world [2, 7] [Inr [1]])\<lparr>trace := [LoadHistoryItems, LoadHistoryItems]\<rparr>)
   \<and> list_all (is_new scripted 3 ''id'') [6, 5, 4]"
proof -
  have h1: "(0::int) < 3" by simp
  have h2: "''id'' \<noteq> []" by simp
  have ev: "loadHistory_loop scripted 3 ''id''
        (start_locals 10, scripted_world [] [Inr [6, 5], Inr [4, 2, 7], Inr [1]]) =
      Some (Inr \<lparr>hasReachedEnd = True, hasReachedLastSyncDate = True, itemsToLoad = 7,
                 historyItems = [6, 5, 4]\<rparr>,
            (scripted_world [2, 7] [Inr [1]])\<lparr>trace := [LoadHistoryItems, LoadHistoryItems]\<rparr>)"
    by code_simp
  have st: "\<forall>x\<in>set (historyItems (start_locals 10)). is_new scripted 3 ''id'' x"
    by (simp add: start_locals_def)
  have p: "process_page scripted 3 ''id'' [5, 2, 7] (start_locals 10, scripted_world [] []) =
     ((start_locals 10)\<lparr>hasReachedLastSyncDate := True, itemsToLoad := 9, historyItems := [5]\<rparr>,
      (scripted_world [] [])\<lparr>leftoverHistoryItems := [2, 7]\<rparr>)"
    using watermark_scan [OF h1 h2, of scripted "[5, 2, 7]" "start_locals 10" "scripted_world [] []"]
    by (simp add: scripted_def start_locals_def)
  have q: "\<forall>x\<in>set (historyItems \<lparr>hasReachedEnd = True, hasReachedLastSyncDate = True,
                 itemsToLoad = 7, historyItems = [6, 5, 4 :: nat]\<rparr>). is_new scripted 3 ''id'' x"
    using watermark_scan [OF h1 h2, of scripted "[]" "start_locals 10"
        "scripted_world [] [Inr [6, 5], Inr [4, 2, 7], Inr [1]]"] ev st
    by blast
  from q have "list_all (is_new scripted 3 ''id'') [6, 5, 4]"
    by (simp add: list_all_iff)
  with p ev show ?thesis by simp
qed

subsection \<open>An invariant rule for the loop\<close>

lemma loop_rule:
  assumes run: "loadHistory_loop A lastSync lastSyncId lw = Some y"
    and init: "I lw"
    and step: "\<And>lw l' w'. I lw \<Longrightarrow> loop_body A lastSync lastSyncId lw = (Inr l', w') \<Longrightarrow>
                 \<not> hasReachedEnd l' \<and> 0 < itemsToLoad l' \<Longrightarrow> I (l', w')"
    and leave: "\<And>lw l' w'. I lw \<Longrightarrow> loop_body A lastSync lastSyncId lw = (Inr l', w') \<Longrightarrow>
                 \<not> (\<not> hasReachedEnd l' \<and> 0 < itemsToLoad l') \<Longrightarrow> Q (Inr l', w')"
    and throw: "\<And>lw err w'. I lw \<Longrightarrow> loop_body A lastSync lastSyncId lw = (Inl err, w') \<Longrightarrow>
                 Q (Inl err, w')"
  shows "Q y"
proof -
  have "A = A \<longrightarrow> lastSync = lastSync \<longrightarrow> lastSyncId = lastSyncId \<longrightarrow> I lw \<longrightarrow> Q y"
  proof (rule loadHistory_loop.raw_induct [where P = "\<lambda>A' lastSync' lastSyncId' lw y.
           A' = A \<longrightarrow> lastSync' = lastSync \<longrightarrow> lastSyncId' = lastSyncId \<longrightarrow> I lw \<longrightarrow> Q y",
         OF _ run])
    fix loop :: "('a, 'b, 'c) methods \<Rightarrow> int \<Rightarrow> string \<Rightarrow> 'a locals \<times> ('a, 'b, 'c) world
                   \<Rightarrow> ((error + 'a locals) \<times> ('a, 'b, 'c) world) option"
      and A' :: "('a, 'b, 'c) methods" and lastSync' lastSyncId' lw y
    assume IH: "\<And>A' lastSync' lastSyncId' lw y. loop A' lastSync' lastSyncId' lw = Some y \<Longrightarrow>
           A' = A \<longrightarrow> lastSync' = lastSync \<longrightarrow> lastSyncId' = lastSyncId \<longrightarrow> I lw \<longrightarrow> Q y"
      and unfolded: "(case loop_body A' lastSync' lastSyncId' lw of
                    (Inl err, w') \<Rightarrow> Some (Inl err, w')
                  | (Inr l', w') \<Rightarrow>
                      if \<not> hasReachedEnd l' \<and> itemsToLoad l' > 0
                      then loop A' lastSync' lastSyncId' (l', w')
                      else Some (Inr l', w')) = Some y"
    show "A' = A \<longrightarrow> lastSync' = lastSync \<longrightarrow> lastSyncId' = lastSyncId \<longrightarrow> I lw \<longrightarrow> Q y"
    proof (intro impI)
      assume eqs: "A' = A" "lastSync' = lastSync" "lastSyncId' = lastSyncId" and inv: "I lw"
      obtain r w1 where b: "loop_body A lastSync lastSyncId lw = (r, w1)"
        by (cases "loop_body A lastSync lastSyncId lw")
      show "Q y"
      proof (cases r)
        case (Inl err)
        with unfolded b eqs have "y = (Inl err, w1)" by simp
        with throw [OF inv] b Inl show ?thesis by simp
      next
        case (Inr l1)
        show ?thesis
        proof (cases "\<not> hasReachedEnd l1 \<and> 0 < itemsToLoad l1")
          case True
          with unfolded b Inr eqs have "loop A lastSync lastSyncId (l1, w1) = Some y" by simp
          moreover have "I (l1, w1)" using step [OF inv] b Inr True by simp
          ultimately show ?thesis using IH by blast
        next
          case False
          with unfolded b Inr eqs have "y = (Inr l1, w1)" by auto
          with leave [OF inv _ False] b Inr show ?thesis by simp
        qed
      qed
    qed
  qed
  with init show ?thesis by simp
qed

subsection \<open>The source of a page\<close>

lemma trace_process_page:
  "trace (snd (process_page A lastSync lastSyncId page (l, w))) = trace w"
  by (simp add: process_page_def split: prod.splits option.splits)

lemma trace_source_page:
  "trace (snd (source_page A w)) =
     trace w @ (if leftoverHistoryItems w = [] \<and> \<not> hasReachedHistoryEnd w
                then [LoadHistoryItems] else [])"
  by (simp add: source_page_def split: prod.splits)

lemma trace_loop_body:
  "trace (snd (loop_body A lastSync lastSyncId (l, w))) =
     trace w @ (if leftoverHistoryItems w = [] \<and> \<not> hasReachedHistoryEnd w
                then [LoadHistoryItems] else [])"
proof -
  obtain r w1 where s: "source_page A w = (r, w1)"
    by (cases "source_page A w")
  have t1: "trace w1 =
     trace w @ (if leftoverHistoryItems w = [] \<and> \<not> hasReachedHistoryEnd w
                then [LoadHistoryItems] else [])"
    using trace_source_page [of A w] s by simp
  show ?thesis
  proof (cases r)
    case (Inl err)
    with s t1 show ?thesis by (simp add: loop_body_def)
  next
    case (Inr page)
    obtain l2 w2 where p: "process_page A lastSync lastSyncId page (l, w1) = (l2, w2)"
      by (cases "process_page A lastSync lastSyncId page (l, w1)")
    have "trace w2 = trace w1"
      using trace_process_page [of A lastSync lastSyncId page l w1] p by simp
    with s t1 Inr p show ?thesis by (simp add: loop_body_def)
  qed
qed



subsection \<open>When the loop repeats\<close>







subsection \<open>What a run leaves in the store and in the trace\<close>

lemma store_data_loop_body:
  "store_data (snd (loop_body A lastSync lastSyncId (l, w))) = store_data w"
  by (simp add: loop_body_def source_page_def process_page_def
      split: prod.splits sum.splits option.splits)

lemma loop_effects:
  assumes run: "loadHistory_loop A lastSync lastSyncId (l, w) = Some y"
  shows "store_data (snd y) = store_data w \<and>
         (\<exists>k. trace (snd y) = trace w @ replicate k LoadHistoryItems)"
proof -
  let ?I = "\<lambda>lw :: 'a locals \<times> ('a, 'b, 'c) world.
     store_data (snd lw) = store_data w \<and>
     (\<exists>k. trace (snd lw) = trace w @ replicate k LoadHistoryItems)"
  let ?Q = "\<lambda>y :: (error + 'a locals) \<times> ('a, 'b, 'c) world.
     store_data (snd y) = store_data w \<and>
     (\<exists>k. trace (snd y) = trace w @ replicate k LoadHistoryItems)"
  have body: "?Q (r, w')" if inv: "?I lw" and b: "loop_body A lastSync lastSyncId lw = (r, w')"
    for lw r w'
  proof -
    obtain l0 w0 where lw: "lw = (l0, w0)" by (cases lw)
    from inv lw obtain k where k: "trace w0 = trace w @ replicate k LoadHistoryItems"
      and s: "store_data w0 = store_data w" by auto
    have s': "store_data w' = store_data w"
      using store_data_loop_body [of A lastSync lastSyncId l0 w0] b lw s by simp
    have "trace w' = trace w0 \<or> trace w' = trace w0 @ [LoadHistoryItems]"
      using trace_loop_body [of A lastSync lastSyncId l0 w0] b lw by (simp split: if_splits)
    then have "\<exists>j. trace w' = trace w @ replicate j LoadHistoryItems"
    proof
      assume "trace w' = trace w0"
      with k show ?thesis by auto
    next
      assume "trace w' = trace w0 @ [LoadHistoryItems]"
      with k have "trace w' = trace w @ replicate (Suc k) LoadHistoryItems"
        by (simp add: replicate_append_same)
      then show ?thesis by blast
    qed
    with s' show ?thesis by simp
  qed
  have init: "?I (l, w)"
  proof -
    have "trace w = trace w @ replicate 0 LoadHistoryItems" by simp
    then show ?thesis by auto
  qed
  show ?thesis
  proof (rule loop_rule [OF run, of ?I ?Q])
    show "?I (l, w)" by (rule init)
  next
    fix lw :: "'a locals \<times> ('a, 'b, 'c) world" and l' w'
    assume "?I lw" and "loop_body A lastSync lastSyncId lw = (Inr l', w')"
    from body [OF this] show "?I (l', w')" by simp
  next
    fix lw :: "'a locals \<times> ('a, 'b, 'c) world" and l' w'
    assume "?I lw" and "loop_body A lastSync lastSyncId lw = (Inr l', w')"
    from body [OF this] show "?Q (Inr l', w')" .
  next
    fix lw :: "'a locals \<times> ('a, 'b, 'c) world" and err w'
    assume "?I lw" and "loop_body A lastSync lastSyncId lw = (Inl err, w')"
    from body [OF this] show "?Q (Inl err, w')" .
  qed
qed

lemma try_throws_effects:
  assumes "loadHistory_try A n lastSync lastSyncId w = Some (Inl err, w1)"
  shows "store_data w1 = store_data w \<and>
         (\<exists>tr. trace w1 = trace w @ tr \<and>
               (\<forall>its e d. SetData its e d \<notin> set tr) \<and>
               (\<forall>m e. ErrorsError m e \<notin> set tr) \<and>
               (\<forall>m e. Dispatch m e \<notin> set tr))"
proof -
  let ?l0 = "\<lparr>hasReachedEnd = hasReachedEnd (store_data w),
              hasReachedLastSyncDate = hasReachedLastSyncDate (store_data w),
              itemsToLoad = n, historyItems = []\<rparr>"
  obtain y where run: "loadHistory_loop A lastSync lastSyncId (?l0, w) = Some y"
    using assms by (cases "loadHistory_loop A lastSync lastSyncId (?l0, w)")
      (simp_all add: loadHistory_try_def)
  from loop_effects [OF run] obtain k where
    s: "store_data (snd y) = store_data w" and
    t: "trace (snd y) = trace w @ replicate k LoadHistoryItems" by blast
  obtain r w2 where y: "y = (r, w2)" by (cases y)
  show ?thesis
  proof (cases r)
    case (Inl e)
    with assms run y have "w1 = w2"
      by (simp add: loadHistory_try_def)
    with s t y have "store_data w1 = store_data w"
      and "trace w1 = trace w @ replicate k LoadHistoryItems" by simp_all
    then show ?thesis by auto
  next
    case (Inr l2)
    with assms run y have "w1 = w2\<lparr>trace := trace w2 @ [ConvertHistoryItems (historyItems l2)]\<rparr>"
      by (auto simp add: loadHistory_try_def setData_def split: if_splits sum.splits)
    with s t y have "store_data w1 = store_data w"
      and "trace w1 =
             trace w @ (replicate k LoadHistoryItems @ [ConvertHistoryItems (historyItems l2)])"
      by simp_all
    then show ?thesis by (intro conjI exI) auto
  qed
qed



lemma iteration_start_loop:
  "iteration_start A lastSync lastSyncId k lw = Some lw' \<Longrightarrow>
   loadHistory_loop A lastSync lastSyncId lw = loadHistory_loop A lastSync lastSyncId lw'"
proof (induction k arbitrary: lw)
  case 0
  then show ?case by simp
next
  case (Suc k)
  obtain r w1 where b: "loop_body A lastSync lastSyncId lw = (r, w1)"
    by (cases "loop_body A lastSync lastSyncId lw")
  show ?case
  proof (cases r)
    case (Inl err)
    with Suc.prems b show ?thesis by simp
  next
    case (Inr l1)
    with Suc.prems b have go: "\<not> hasReachedEnd l1 \<and> 0 < itemsToLoad l1"
      and rest: "iteration_start A lastSync lastSyncId k (l1, w1) = Some lw'"
      by (simp_all split: if_splits)
    have "loadHistory_loop A lastSync lastSyncId lw =
            loadHistory_loop A lastSync lastSyncId (l1, w1)"
      using b Inr go by (subst loadHistory_loop.simps) simp
    with Suc.IH [OF rest] show ?thesis by simp
  qed
qed

lemma fetch_throws_loop:
  assumes "leftoverHistoryItems w' = []" and "\<not> hasReachedHistoryEnd w'"
    and "loadHistoryItems A (hasReachedHistoryEnd w') (sub w') = (Inl err, h, s)"
  shows "loadHistory_loop A lastSync lastSyncId (l, w') =
           Some (Inl err, w'\<lparr>hasReachedHistoryEnd := h, sub := s,
                            trace := trace w' @ [LoadHistoryItems]\<rparr>)"
proof -
  have "loop_body A lastSync lastSyncId (l, w') =
          (Inl err, w'\<lparr>hasReachedHistoryEnd := h, sub := s,
                       trace := trace w' @ [LoadHistoryItems]\<rparr>)"
    using assms by (simp add: loop_body_def source_page_def)
  then show ?thesis by (subst loadHistory_loop.simps) simp
qed

lemma iteration_start_effects:
  "iteration_start A lastSync lastSyncId k (l, w) = Some (l', w') \<Longrightarrow>
   store_data w' = store_data w \<and> (\<exists>j. trace w' = trace w @ replicate j LoadHistoryItems)"
proof (induction k arbitrary: l w)
  case 0
  then have "w' = w" by simp
  moreover have "trace w = trace w @ replicate 0 LoadHistoryItems" by simp
  ultimately show ?case by blast
next
  case (Suc k)
  obtain r w1 where b: "loop_body A lastSync lastSyncId (l, w) = (r, w1)"
    by (cases "loop_body A lastSync lastSyncId (l, w)")
  show ?case
  proof (cases r)
    case (Inl err)
    with Suc.prems b show ?thesis by simp
  next
    case (Inr l1)
    with Suc.prems b have rest: "iteration_start A lastSync lastSyncId k (l1, w1) = Some (l', w')"
      by (simp split: if_splits)
    from Suc.IH [OF rest] obtain j where
      s: "store_data w' = store_data w1" and t: "trace w' = trace w1 @ replicate j LoadHistoryItems"
      by blast
    have s1: "store_data w1 = store_data w"
      using store_data_loop_body [of A lastSync lastSyncId l w] b by simp
    have "trace w1 = trace w \<or> trace w1 = trace w @ [LoadHistoryItems]"
      using trace_loop_body [of A lastSync lastSyncId l w] b by (simp split: if_splits)
    then have "\<exists>i. trace w' = trace w @ replicate i LoadHistoryItems"
    proof
      assume "trace w1 = trace w"
      with t show ?thesis by auto
    next
      assume "trace w1 = trace w @ [LoadHistoryItems]"
      with t have "trace w' = trace w @ replicate (Suc j) LoadHistoryItems" by simp
      then show ?thesis by blast
    qed
    with s s1 show ?thesis by simp
  qed
qed

text \<open>
  C5: an error whose \<open>canceled\<close> flag is not set, raised by the fetch of any iteration or by
  the conversion, is reported through \<open>Errors.error\<close>, the event
  \<open>SERVICE_HISTORY_LOAD_ERROR\<close> is dispatched with it, \<open>store.setData\<close> is not called (and the
  data of the store are as before) and \<open>loadHistory\<close> throws the same error. The same holds
  of whatever the \<open>try\<close> block throws.
\<close>

theorem other_error_is_reported_and_rethrown:
  assumes "\<not> canceled err"
  shows "(\<forall>k l w' h s.
            iteration_start A lastSync lastSyncId k
              (\<lparr>hasReachedEnd = hasReachedEnd (store_data w),
                hasReachedLastSyncDate = hasReachedLastSyncDate (store_data w),
                itemsToLoad = n, historyItems = []\<rparr>, w) = Some (l, w') \<and>
            leftoverHistoryItems w' = [] \<and> \<not> hasReachedHistoryEnd w' \<and>
            loadHistoryItems A (hasReachedHistoryEnd w') (sub w') = (Inl err, h, s) \<longrightarrow>
            loadHistory A n lastSync lastSyncId w =
              Some (Inl err,
                    w'\<lparr>hasReachedHistoryEnd := h, sub := s,
                       trace := trace w' @ [LoadHistoryItems,
                                            ErrorsError ''Failed to load history.'' err,
                                            Dispatch ''SERVICE_HISTORY_LOAD_ERROR'' err]\<rparr>) \<and>
            store_data w' = store_data w \<and>
            (\<exists>tr. trace w' = trace w @ tr \<and> (\<forall>its e d. SetData its e d \<notin> set tr)))
     \<and> (\<forall>l w1.
            loadHistory_loop A lastSync lastSyncId
              (\<lparr>hasReachedEnd = hasReachedEnd (store_data w),
                hasReachedLastSyncDate = hasReachedLastSyncDate (store_data w),
                itemsToLoad = n, historyItems = []\<rparr>, w) = Some (Inr l, w1) \<and>
            historyItems l \<noteq> [] \<and> convertHistoryItems A (historyItems l) = Inl err \<longrightarrow>
            loadHistory A n lastSync lastSyncId w =
              Some (Inl err,
                    w1\<lparr>trace := trace w1 @ [ConvertHistoryItems (historyItems l),
                                             ErrorsError ''Failed to load history.'' err,
                                             Dispatch ''SERVICE_HISTORY_LOAD_ERROR'' err]\<rparr>) \<and>
            store_data w1 = store_data w \<and>
            (\<exists>tr. trace w1 = trace w @ tr \<and> (\<forall>its e d. SetData its e d \<notin> set tr)))
     \<and> (\<forall>w1.
            loadHistory_try A n lastSync lastSyncId w = Some (Inl err, w1) \<longrightarrow>
            loadHistory A n lastSync lastSyncId w =
              Some (Inl err,
                    w1\<lparr>trace := trace w1 @ [ErrorsError ''Failed to load history.'' err,
                                             Dispatch ''SERVICE_HISTORY_LOAD_ERROR'' err]\<rparr>) \<and>
            store_data w1 = store_data w \<and>
            (\<exists>tr. trace w1 = trace w @ tr \<and> (\<forall>its e d. SetData its e d \<notin> set tr)))"
proof -
  let ?init = "\<lparr>hasReachedEnd = hasReachedEnd (store_data w),
              hasReachedLastSyncDate = hasReachedLastSyncDate (store_data w),
              itemsToLoad = n, historyItems = []\<rparr> :: 'a locals"
  have caught: "loadHistory A n lastSync lastSyncId w =
              Some (Inl err,
                    w1\<lparr>trace := trace w1 @ [ErrorsError ''Failed to load history.'' err,
                                             Dispatch ''SERVICE_HISTORY_LOAD_ERROR'' err]\<rparr>) \<and>
            store_data w1 = store_data w \<and>
            (\<exists>tr. trace w1 = trace w @ tr \<and> (\<forall>its e d. SetData its e d \<notin> set tr))"
    if t: "loadHistory_try A n lastSync lastSyncId w = Some (Inl err, w1)" for w1
  proof -
    have "loadHistory A n lastSync lastSyncId w =
              Some (Inl err,
                    w1\<lparr>trace := trace w1 @ [ErrorsError ''Failed to load history.'' err,
                                             Dispatch ''SERVICE_HISTORY_LOAD_ERROR'' err]\<rparr>)"
      using t assms by (simp add: loadHistory_def)
    with try_throws_effects [OF t] show ?thesis by blast
  qed
  have fetch: "loadHistory A n lastSync lastSyncId w =
              Some (Inl err,
                    w'\<lparr>hasReachedHistoryEnd := h, sub := s,
                       trace := trace w' @ [LoadHistoryItems,
                                            ErrorsError ''Failed to load history.'' err,
                                            Dispatch ''SERVICE_HISTORY_LOAD_ERROR'' err]\<rparr>) \<and>
            store_data w' = store_data w \<and>
            (\<exists>tr. trace w' = trace w @ tr \<and> (\<forall>its e d. SetData its e d \<notin> set tr))"
    if it: "iteration_start A lastSync lastSyncId k (?init, w) = Some (l, w')"
      and f: "leftoverHistoryItems w' = []" "\<not> hasReachedHistoryEnd w'"
        "loadHistoryItems A (hasReachedHistoryEnd w') (sub w') = (Inl err, h, s)"
    for k l w' h s
  proof -
    let ?w1 = "w'\<lparr>hasReachedHistoryEnd := h, sub := s, trace := trace w' @ [LoadHistoryItems]\<rparr>"
    have "loadHistory_loop A lastSync lastSyncId (?init, w) = Some (Inl err, ?w1)"
      using iteration_start_loop [OF it] fetch_throws_loop [OF f, of lastSync lastSyncId l]
      by simp
    then have t: "loadHistory_try A n lastSync lastSyncId w = Some (Inl err, ?w1)"
      by (simp add: loadHistory_try_def)
    from caught [OF t] have
      r: "loadHistory A n lastSync lastSyncId w =
              Some (Inl err,
                    ?w1\<lparr>trace := trace ?w1 @ [ErrorsError ''Failed to load history.'' err,
                                             Dispatch ''SERVICE_HISTORY_LOAD_ERROR'' err]\<rparr>)"
      by blast
    from iteration_start_effects [OF it] obtain j where
      "store_data w' = store_data w" "trace w' = trace w @ replicate j LoadHistoryItems"
      by auto
    then have "store_data w' = store_data w \<and>
        (\<exists>tr. trace w' = trace w @ tr \<and> (\<forall>its e d. SetData its e d \<notin> set tr))"
      by (intro conjI exI [of _ "replicate j LoadHistoryItems"]) auto
    with r show ?thesis by simp
  qed
  have convert: "loadHistory A n lastSync lastSyncId w =
              Some (Inl err,
                    w1\<lparr>trace := trace w1 @ [ConvertHistoryItems (historyItems l),
                                             ErrorsError ''Failed to load history.'' err,
                                             Dispatch ''SERVICE_HISTORY_LOAD_ERROR'' err]\<rparr>) \<and>
            store_data w1 = store_data w \<and>
            (\<exists>tr. trace w1 = trace w @ tr \<and> (\<forall>its e d. SetData its e d \<notin> set tr))"
    if run: "loadHistory_loop A lastSync lastSyncId (?init, w) = Some (Inr l, w1)"
      and c: "historyItems l \<noteq> []" "convertHistoryItems A (historyItems l) = Inl err"
    for l w1
  proof -
    let ?w2 = "w1\<lparr>trace := trace w1 @ [ConvertHistoryItems (historyItems l)]\<rparr>"
    have t: "loadHistory_try A n lastSync lastSyncId w = Some (Inl err, ?w2)"
      using run c by (simp add: loadHistory_try_def)
    from caught [OF t] have
      r: "loadHistory A n lastSync lastSyncId w =
              Some (Inl err,
                    ?w2\<lparr>trace := trace ?w2 @ [ErrorsError ''Failed to load history.'' err,
                                             Dispatch ''SERVICE_HISTORY_LOAD_ERROR'' err]\<rparr>)"
      by blast
    from loop_effects [OF run] obtain j where
      "store_data w1 = store_data w" "trace w1 = trace w @ replicate j LoadHistoryItems"
      by auto
    then have "store_data w1 = store_data w \<and>
        (\<exists>tr. trace w1 = trace w @ tr \<and> (\<forall>its e d. SetData its e d \<notin> set tr))"
      by (intro conjI exI [of _ "replicate j LoadHistoryItems"]) auto
    with r show ?thesis by simp
  qed
  from fetch convert caught show ?thesis by blast
qed

theorem other_error_is_reported_and_rethrown_witness:
  "loadHistory scripted 10 0 ''id''
      (scripted_world [] [Inr [5, 4], Inl (Error False ''network'')]) =
     Some (Inl (Error False ''network''),
           (scripted_world [] [])\<lparr>hasReachedHistoryEnd := True,
              trace := [LoadHistoryItems, LoadHistoryItems,
                 ErrorsError ''Failed to load history.'' (Error False ''network''),
                 Dispatch ''SERVICE_HISTORY_LOAD_ERROR'' (Error False ''network'')]\<rparr>)
   \<and> loadHistory scripted_strict 10 0 ''id'' (scripted_world [] [Inr [5, 0]]) =
     Some (Inl (Error False ''bad entry''),
           (scripted_world [] [])\<lparr>hasReachedHistoryEnd := True,
              trace := [LoadHistoryItems, ConvertHistoryItems [5, 0],
                 ErrorsError ''Failed to load history.'' (Error False ''bad entry''),
                 Dispatch ''SERVICE_HISTORY_LOAD_ERROR'' (Error False ''bad entry'')]\<rparr>)
   \<and> store_data ((scripted_world [] [])\<lparr>hasReachedHistoryEnd := True,
              trace := [LoadHistoryItems]\<rparr>) =
       store_data (scripted_world [] [Inr [5, 0]])"
proof -
  let ?w = "scripted_world [] [Inr [5, 4], Inl (Error False ''network'')]"
  let ?init = "\<lambda>w :: (nat, (error + nat list) list, nat) world.
     \<lparr>hasReachedEnd = hasReachedEnd (store_data w),
      hasReachedLastSyncDate = hasReachedLastSyncDate (store_data w),
      itemsToLoad = 10, historyItems = [] :: nat list\<rparr>"
  let ?l = "\<lparr>hasReachedEnd = False, hasReachedLastSyncDate = False, itemsToLoad = 8,
             historyItems = [5, 4 :: nat]\<rparr>"
  let ?w' = "(scripted_world [] [Inl (Error False ''network'')])\<lparr>trace := [LoadHistoryItems]\<rparr>"
  have n1: "\<not> canceled (Error False ''network'')" by simp
  have it: "iteration_start scripted 0 ''id'' (Suc 0) (?init ?w, ?w) = Some (?l, ?w')"
    by code_simp
  have f: "leftoverHistoryItems ?w' = [] \<and> \<not> hasReachedHistoryEnd ?w' \<and>
      loadHistoryItems scripted (hasReachedHistoryEnd ?w') (sub ?w') =
        (Inl (Error False ''network''), True, [])"
    by (simp add: scripted_def scripted_world_def)
  have "loadHistory scripted 10 0 ''id'' ?w =
     Some (Inl (Error False ''network''),
           ?w'\<lparr>hasReachedHistoryEnd := True, sub := [],
               trace := trace ?w' @ [LoadHistoryItems,
                 ErrorsError ''Failed to load history.'' (Error False ''network''),
                 Dispatch ''SERVICE_HISTORY_LOAD_ERROR'' (Error False ''network'')]\<rparr>)"
    using other_error_is_reported_and_rethrown [OF n1, of scripted 0 "''id''" ?w 10] it f
    by blast
  then have k1: "loadHistory scripted 10 0 ''id'' ?w =
     Some (Inl (Error False ''network''),
           (scripted_world [] [])\<lparr>hasReachedHistoryEnd := True,
              trace := [LoadHistoryItems, LoadHistoryItems,
                 ErrorsError ''Failed to load history.'' (Error False ''network''),
                 Dispatch ''SERVICE_HISTORY_LOAD_ERROR'' (Error False ''network'')]\<rparr>)"
    by (simp add: scripted_world_def)
  let ?v = "scripted_world [] [Inr [5, 0]]"
  let ?m = "\<lparr>hasReachedEnd = True, hasReachedLastSyncDate = False, itemsToLoad = 8,
             historyItems = [5, 0 :: nat]\<rparr>"
  let ?v1 = "(scripted_world [] [])\<lparr>hasReachedHistoryEnd := True, trace := [LoadHistoryItems]\<rparr>"
  have n2: "\<not> canceled (Error False ''bad entry'')" by simp
  have run: "loadHistory_loop scripted_strict 0 ''id'' (?init ?v, ?v) = Some (Inr ?m, ?v1)"
    by code_simp
  have c: "historyItems ?m \<noteq> [] \<and>
      convertHistoryItems scripted_strict (historyItems ?m) = Inl (Error False ''bad entry'')"
    by (simp add: scripted_strict_def scripted_def)
  have conv: "loadHistory scripted_strict 10 0 ''id'' ?v =
     Some (Inl (Error False ''bad entry''),
           ?v1\<lparr>trace := trace ?v1 @ [ConvertHistoryItems (historyItems ?m),
                 ErrorsError ''Failed to load history.'' (Error False ''bad entry''),
                 Dispatch ''SERVICE_HISTORY_LOAD_ERROR'' (Error False ''bad entry'')]\<rparr>) \<and>
     store_data ?v1 = store_data ?v"
    using other_error_is_reported_and_rethrown [OF n2, of scripted_strict 0 "''id''" ?v 10] run c
    by blast
  then have k2: "loadHistory scripted_strict 10 0 ''id'' ?v =
     Some (Inl (Error False ''bad entry''),
           (scripted_world [] [])\<lparr>hasReachedHistoryEnd := True,
              trace := [LoadHistoryItems, ConvertHistoryItems [5, 0],
                 ErrorsError ''Failed to load history.'' (Error False ''bad entry''),
                 Dispatch ''SERVICE_HISTORY_LOAD_ERROR'' (Error False ''bad entry'')]\<rparr>)"
    by (simp add: scripted_world_def)
  from conv have k3: "store_data ?v1 = store_data ?v" by blast
  from k1 k2 k3 show ?thesis by blast
qed

subsection \<open>A run that never ends\<close>

lemma base_body:
  assumes "loadHistoryItems A = (\<lambda>h s. (Inr [], h, s))"
    and "leftoverHistoryItems w = []" and "\<not> hasReachedHistoryEnd w"
  shows "loop_body A lastSync lastSyncId (l, w) =
           (Inr (l\<lparr>hasReachedEnd := hasReachedLastSyncDate l\<rparr>),
            w\<lparr>hasReachedHistoryEnd := False, sub := sub w,
              trace := trace w @ [LoadHistoryItems]\<rparr>)"
  using assms by (simp add: loop_body_def source_page_def process_page_def)

lemma loop_never_returns:
  fixes A :: "('a, 'b, 'c) methods"
  assumes base: "loadHistoryItems A = (\<lambda>h s. (Inr [], h, s))"
    and start: "0 < itemsToLoad l" "leftoverHistoryItems w = []" "\<not> hasReachedHistoryEnd w"
      "\<not> hasReachedLastSyncDate l"
  shows "loadHistory_loop A lastSync lastSyncId (l, w) = None"
proof (rule ccontr)
  assume "loadHistory_loop A lastSync lastSyncId (l, w) \<noteq> None"
  then obtain y where run: "loadHistory_loop A lastSync lastSyncId (l, w) = Some y" by blast
  let ?I = "\<lambda>lw :: 'a locals \<times> ('a, 'b, 'c) world.
     0 < itemsToLoad (fst lw) \<and> leftoverHistoryItems (snd lw) = [] \<and>
     \<not> hasReachedHistoryEnd (snd lw) \<and> \<not> hasReachedLastSyncDate (fst lw)"
  let ?Q = "\<lambda>y :: (error + 'a locals) \<times> ('a, 'b, 'c) world. False"
  have body: "l' = l0\<lparr>hasReachedEnd := hasReachedLastSyncDate l0\<rparr> \<and>
              w' = w0\<lparr>hasReachedHistoryEnd := False, sub := sub w0,
                      trace := trace w0 @ [LoadHistoryItems]\<rparr> \<and> r = Inr l'"
    if "?I (l0, w0)" and "loop_body A lastSync lastSyncId (l0, w0) = (r, w')"
      and "r = Inr l' \<or> (\<exists>err. r = Inl err)"
    for l0 w0 r l' w'
    using that base_body [OF base, of w0 lastSync lastSyncId l0] by auto
  show False
  proof (rule loop_rule [OF run, of ?I ?Q])
    show "?I (l, w)" using start by simp
  next
    fix lw :: "'a locals \<times> ('a, 'b, 'c) world" and l' w'
    assume inv: "?I lw" and b: "loop_body A lastSync lastSyncId lw = (Inr l', w')"
    obtain l0 w0 where lw: "lw = (l0, w0)" by (cases lw)
    from body [of l0 w0 "Inr l'" w' l'] inv b lw show "?I (l', w')" by simp
  next
    fix lw :: "'a locals \<times> ('a, 'b, 'c) world" and l' w'
    assume inv: "?I lw" and b: "loop_body A lastSync lastSyncId lw = (Inr l', w')"
      and stop: "\<not> (\<not> hasReachedEnd l' \<and> 0 < itemsToLoad l')"
    obtain l0 w0 where lw: "lw = (l0, w0)" by (cases lw)
    from body [of l0 w0 "Inr l'" w' l'] inv b lw stop show False by simp
  next
    fix lw :: "'a locals \<times> ('a, 'b, 'c) world" and err w'
    assume inv: "?I lw" and b: "loop_body A lastSync lastSyncId lw = (Inl err, w')"
    obtain l0 w0 where lw: "lw = (l0, w0)" by (cases lw)
    from base_body [OF base, of w0 lastSync lastSyncId l0] inv b lw show False by simp
  qed
qed

text \<open>
  C10: a call with \<open>itemsToLoad > 0\<close>, an empty leftover buffer, \<open>hasReachedHistoryEnd\<close>
  false and the stored \<open>hasReachedLastSyncDate\<close> false, on an adapter whose
  \<open>loadHistoryItems\<close> is that of the base class (an empty page, nothing else changed),
  never returns: the loop repeats for ever.
\<close>

theorem base_adapter_never_returns:
  assumes "loadHistoryItems A = loadHistoryItems base_methods"
    and "0 < n" and "leftoverHistoryItems w = []" and "\<not> hasReachedHistoryEnd w"
    and "\<not> hasReachedLastSyncDate (store_data w)"
  shows "loadHistory A n lastSync lastSyncId w = None"
proof -
  have base: "loadHistoryItems A = (\<lambda>h s. (Inr [], h, s))"
    using assms(1) by (simp add: base_methods_def)
  have "loadHistory_loop A lastSync lastSyncId
          (\<lparr>hasReachedEnd = hasReachedEnd (store_data w),
            hasReachedLastSyncDate = hasReachedLastSyncDate (store_data w),
            itemsToLoad = n, historyItems = []\<rparr>, w) = None"
    using assms(2-5) by (intro loop_never_returns [OF base]) simp_all
  then show ?thesis by (simp add: loadHistory_def loadHistory_try_def)
qed

theorem base_adapter_never_returns_witness:
  "loadHistory (base_methods :: (nat, unit, nat) methods) 1 0 []
     \<lparr>leftoverHistoryItems = [], hasReachedHistoryEnd = False, sub = (),
      store_data = \<lparr>hasReachedEnd = False, hasReachedLastSyncDate = False, items = []\<rparr>,
      trace = []\<rparr> = None"
  by (rule base_adapter_never_returns) simp_all

subsection \<open>Resolution of one item\<close>

lemma resolve_trakt_calls:
  "\<not> truthy (trakt it) \<Longrightarrow>
   calls (snd (resolve_trakt S cacheId traktCache correction \<lparr>item = it, writes = [], calls = []\<rparr>)) =
     (if correction \<noteq> None \<or> traktCache cacheId = None then [Find it correction]
      else [Load (the (traktCache cacheId))])"
  by (simp add: resolve_trakt_def Let_def split: sum.splits)

lemma load_watched_calls:
  "\<exists>cs. calls (snd (load_watched S cacheId st)) = calls st @ cs \<and>
        (\<forall>c \<in> set cs. \<exists>i. c = SyncLoadHistory i)"
  by (auto simp add: load_watched_def split: trakt_field.splits prod.splits option.splits)

lemma try_calls:
  assumes "\<not> truthy (trakt it)"
  shows "\<exists>cs. calls (snd (loadTraktItemHistory_try S it traktCache correction)) =
           (if correction \<noteq> None \<or> traktCache (getTraktCacheId it) = None
            then [Find it correction] else [Load (the (traktCache (getTraktCacheId it)))]) @ cs \<and>
           (\<forall>c \<in> set cs. \<exists>i. c = SyncLoadHistory i)"
proof -
  let ?st0 = "\<lparr>item = it, writes = [], calls = []\<rparr> :: ('a, 'b, 'c) resolution"
  let ?first = "if correction \<noteq> None \<or> traktCache (getTraktCacheId it) = None
            then [Find it correction] else [Load (the (traktCache (getTraktCacheId it)))]"
  obtain e st where r: "resolve_trakt S (getTraktCacheId it) traktCache correction ?st0 = (e, st)"
    by (cases "resolve_trakt S (getTraktCacheId it) traktCache correction ?st0")
  have c1: "calls st = ?first"
    using resolve_trakt_calls [OF assms, of S "getTraktCacheId it" traktCache correction] r
    by simp
  show ?thesis
  proof (cases e)
    case (Some err)
    with r c1 show ?thesis by (simp add: loadTraktItemHistory_try_def)
  next
    case None
    from load_watched_calls [of S "getTraktCacheId it" st] obtain cs where
      "calls (snd (load_watched S (getTraktCacheId it) st)) = calls st @ cs"
      "\<forall>c \<in> set cs. \<exists>i. c = SyncLoadHistory i" by blast
    with None r c1 show ?thesis by (simp add: loadTraktItemHistory_try_def)
  qed
qed

lemma item_history_calls:
  "calls (snd (loadTraktItemHistory S it traktCache correction)) =
     calls (snd (loadTraktItemHistory_try S it traktCache correction))"
  by (simp add: loadTraktItemHistory_def split: prod.splits option.splits)

lemma delete_watchedAt_unresolved: "\<not> truthy (trakt it) \<Longrightarrow> delete_watchedAt it = it"
  by (cases "trakt it") (simp_all add: delete_watchedAt_def)

lemma item_history_after_search:
  assumes "\<not> truthy (trakt it)" and "correction \<noteq> None \<or> traktCache (getTraktCacheId it) = None"
  shows "loadTraktItemHistory S it traktCache correction =
     (case TraktSearch_find S it correction of
        Inl err \<Rightarrow> (None, \<lparr>item = it, writes = [], calls = [Find it correction]\<rparr>)
      | Inr t \<Rightarrow>
          (case load_watched S (getTraktCacheId it)
                  \<lparr>item = it\<lparr>trakt := t\<rparr>, writes = [], calls = [Find it correction]\<rparr> of
             (None, st) \<Rightarrow> (None, st)
           | (Some err, st) \<Rightarrow> (None, st\<lparr>item := delete_watchedAt (item st)\<rparr>)))"
proof (cases "TraktSearch_find S it correction")
  case (Inl err)
  with assms show ?thesis
    by (auto simp add: loadTraktItemHistory_def loadTraktItemHistory_try_def resolve_trakt_def
        delete_watchedAt_unresolved)
next
  case (Inr t)
  with assms show ?thesis
    by (auto simp add: loadTraktItemHistory_def loadTraktItemHistory_try_def resolve_trakt_def)
qed

lemma item_history_after_load:
  assumes "\<not> truthy (trakt it)" and "traktCache (getTraktCacheId it) = Some sv"
  shows "loadTraktItemHistory S it traktCache None =
     (case load_watched S (getTraktCacheId it)
             \<lparr>item = it\<lparr>trakt := Trakt (TraktItem_load S sv)\<rparr>, writes = [],
              calls = [Load sv]\<rparr> of
        (None, st) \<Rightarrow> (None, st)
      | (Some err, st) \<Rightarrow> (None, st\<lparr>item := delete_watchedAt (item st)\<rparr>))"
  using assms
  by (simp add: loadTraktItemHistory_def loadTraktItemHistory_try_def resolve_trakt_def)

text \<open>
  C6: for an item without a catalog entry, \<open>loadTraktItemHistory\<close> hands a correction, when
  there is one, to the search, takes the catalog entry from what the search returns and
  loads nothing from the cache, whether or not the cache has an entry for the key; without
  a correction it loads the entry of the cache for the key and makes no search; with
  neither, it makes the search without a correction.
\<close>

theorem correction_then_cache_then_search:
  assumes "\<not> truthy (trakt it)"
  shows "(\<forall>c. correction = Some c \<longrightarrow>
            loadTraktItemHistory S it traktCache correction =
              (case TraktSearch_find S it (Some c) of
                 Inl err \<Rightarrow> (None, \<lparr>item = it, writes = [], calls = [Find it (Some c)]\<rparr>)
               | Inr t \<Rightarrow>
                   (case load_watched S (getTraktCacheId it)
                           \<lparr>item = it\<lparr>trakt := t\<rparr>, writes = [], calls = [Find it (Some c)]\<rparr> of
                      (None, st) \<Rightarrow> (None, st)
                    | (Some err, st) \<Rightarrow> (None, st\<lparr>item := delete_watchedAt (item st)\<rparr>))) \<and>
            (\<exists>cs. calls (snd (loadTraktItemHistory S it traktCache correction)) =
                    Find it (Some c) # cs \<and> (\<forall>x \<in> set cs. \<exists>i. x = SyncLoadHistory i)) \<and>
            resolve_trakt S (getTraktCacheId it) traktCache correction
                \<lparr>item = it, writes = [], calls = []\<rparr> =
              (case TraktSearch_find S it (Some c) of
                 Inl err \<Rightarrow> (Some err, \<lparr>item = it, writes = [], calls = [Find it (Some c)]\<rparr>)
               | Inr t \<Rightarrow>
                   (None, \<lparr>item = it\<lparr>trakt := t\<rparr>, writes = [], calls = [Find it (Some c)]\<rparr>)) \<and>
            (\<forall>sv. Load sv \<notin> set (calls (snd (loadTraktItemHistory S it traktCache correction)))))
       \<and> (\<forall>sv. correction = None \<and> traktCache (getTraktCacheId it) = Some sv \<longrightarrow>
            loadTraktItemHistory S it traktCache correction =
              (case load_watched S (getTraktCacheId it)
                      \<lparr>item = it\<lparr>trakt := Trakt (TraktItem_load S sv)\<rparr>, writes = [],
                       calls = [Load sv]\<rparr> of
                 (None, st) \<Rightarrow> (None, st)
               | (Some err, st) \<Rightarrow> (None, st\<lparr>item := delete_watchedAt (item st)\<rparr>)) \<and>
            (\<exists>cs. calls (snd (loadTraktItemHistory S it traktCache correction)) =
                    Load sv # cs \<and> (\<forall>x \<in> set cs. \<exists>i. x = SyncLoadHistory i)) \<and>
            resolve_trakt S (getTraktCacheId it) traktCache correction
                \<lparr>item = it, writes = [], calls = []\<rparr> =
              (None, \<lparr>item = it\<lparr>trakt := Trakt (TraktItem_load S sv)\<rparr>, writes = [],
                      calls = [Load sv]\<rparr>) \<and>
            (\<forall>i c. Find i c \<notin> set (calls (snd (loadTraktItemHistory S it traktCache correction)))))
       \<and> (correction = None \<and> traktCache (getTraktCacheId it) = None \<longrightarrow>
            loadTraktItemHistory S it traktCache correction =
              (case TraktSearch_find S it None of
                 Inl err \<Rightarrow> (None, \<lparr>item = it, writes = [], calls = [Find it None]\<rparr>)
               | Inr t \<Rightarrow>
                   (case load_watched S (getTraktCacheId it)
                           \<lparr>item = it\<lparr>trakt := t\<rparr>, writes = [], calls = [Find it None]\<rparr> of
                      (None, st) \<Rightarrow> (None, st)
                    | (Some err, st) \<Rightarrow> (None, st\<lparr>item := delete_watchedAt (item st)\<rparr>))) \<and>
            (\<exists>cs. calls (snd (loadTraktItemHistory S it traktCache correction)) =
                    Find it None # cs \<and> (\<forall>x \<in> set cs. \<exists>i. x = SyncLoadHistory i)) \<and>
            resolve_trakt S (getTraktCacheId it) traktCache correction
                \<lparr>item = it, writes = [], calls = []\<rparr> =
              (case TraktSearch_find S it None of
                 Inl err \<Rightarrow> (Some err, \<lparr>item = it, writes = [], calls = [Find it None]\<rparr>)
               | Inr t \<Rightarrow> (None, \<lparr>item = it\<lparr>trakt := t\<rparr>, writes = [], calls = [Find it None]\<rparr>)) \<and>
            (\<forall>sv. Load sv \<notin> set (calls (snd (loadTraktItemHistory S it traktCache correction)))))"
    (is "?P1 \<and> ?P2 \<and> ?P3")
proof -
  have first: "\<exists>cs. calls (snd (loadTraktItemHistory S it traktCache k)) =
           (if k \<noteq> None \<or> traktCache (getTraktCacheId it) = None
            then Find it k else Load (the (traktCache (getTraktCacheId it)))) # cs \<and>
           (\<forall>x \<in> set cs. \<exists>i. x = SyncLoadHistory i)" for k
    using try_calls [OF assms, of S traktCache k] unfolding item_history_calls by auto
  have r_find: "k \<noteq> None \<or> traktCache (getTraktCacheId it) = None \<Longrightarrow>
      resolve_trakt S (getTraktCacheId it) traktCache k \<lparr>item = it, writes = [], calls = []\<rparr> =
        (case TraktSearch_find S it k of
           Inl err \<Rightarrow> (Some err, \<lparr>item = it, writes = [], calls = [Find it k]\<rparr>)
         | Inr t \<Rightarrow> (None, \<lparr>item = it\<lparr>trakt := t\<rparr>, writes = [], calls = [Find it k]\<rparr>))" for k
    using assms by (auto simp add: resolve_trakt_def split: sum.splits)
  have r_load: "traktCache (getTraktCacheId it) = Some sv \<Longrightarrow>
      resolve_trakt S (getTraktCacheId it) traktCache None \<lparr>item = it, writes = [], calls = []\<rparr> =
        (None, \<lparr>item = it\<lparr>trakt := Trakt (TraktItem_load S sv)\<rparr>, writes = [],
                calls = [Load sv]\<rparr>)" for sv
    using assms by (simp add: resolve_trakt_def)
  have p1: ?P1
  proof (intro allI impI, goal_cases)
    case (1 c)
    obtain cs where cs: "calls (snd (loadTraktItemHistory S it traktCache (Some c))) =
        Find it (Some c) # cs" "\<forall>x \<in> set cs. \<exists>i. x = SyncLoadHistory i"
      using first [of "Some c"] by auto
    then have nl: "\<forall>sv. Load sv \<notin> set (calls (snd (loadTraktItemHistory S it traktCache (Some c))))"
      by auto
    show ?case
      unfolding 1
      using item_history_after_search [OF assms, of "Some c" traktCache S]
        r_find [of "Some c"] cs nl
      by blast
  qed
  have p2: ?P2
  proof (intro allI impI, goal_cases)
    case (1 sv)
    then have eq: "correction = None" and hit: "traktCache (getTraktCacheId it) = Some sv"
      by simp_all
    obtain cs where cs: "calls (snd (loadTraktItemHistory S it traktCache None)) = Load sv # cs"
      "\<forall>x \<in> set cs. \<exists>i. x = SyncLoadHistory i"
      using first [of None] hit by auto
    then have nf: "\<forall>i c. Find i c \<notin> set (calls (snd (loadTraktItemHistory S it traktCache None)))"
      by auto
    show ?case
      unfolding eq
      using item_history_after_load [where it = it and traktCache = traktCache and sv = sv and S = S,
          OF assms hit] r_load [OF hit] cs nf
      by blast
  qed
  have p3: ?P3
  proof (intro impI, goal_cases)
    case 1
    then have eq: "correction = None" and miss: "traktCache (getTraktCacheId it) = None"
      by simp_all
    obtain cs where cs: "calls (snd (loadTraktItemHistory S it traktCache None)) = Find it None # cs"
      "\<forall>x \<in> set cs. \<exists>i. x = SyncLoadHistory i"
      using first [of None] miss by auto
    then have nl: "\<forall>sv. Load sv \<notin> set (calls (snd (loadTraktItemHistory S it traktCache None)))"
      by auto
    show ?case
      unfolding eq
      using item_history_after_search [OF assms, of None traktCache S] r_find [of None] miss cs nl
      by blast
  qed
  from p1 p2 p3 show ?thesis by blast
qed

theorem correction_then_cache_then_search_witness:
  "loadTraktItemHistory example_services (movie ''Heat'' ''db2'')
       [''/movies/heat'' \<mapsto> (''cached:heat'', None)] (Some ''tt2'') =
     (None,
      \<lparr>item = (movie ''Heat'' ''db2'')
                \<lparr>trakt := Trakt \<lparr>entry = ''corrected:tt2'', watchedAt = Some 1000\<rparr>\<rparr>,
       writes = [(''/movies/heat'', (''corrected:tt2'', Some 1000))],
       calls = [Find (movie ''Heat'' ''db2'') (Some ''tt2''),
                SyncLoadHistory ((movie ''Heat'' ''db2'')
                  \<lparr>trakt := Trakt \<lparr>entry = ''corrected:tt2'', watchedAt = None\<rparr>\<rparr>)]\<rparr>)
   \<and> loadTraktItemHistory example_services (movie ''Heat'' ''db2'')
       [''/movies/heat'' \<mapsto> (''cached:heat'', None)] None =
     (None,
      \<lparr>item = (movie ''Heat'' ''db2'')
                \<lparr>trakt := Trakt \<lparr>entry = ''cached:heat'', watchedAt = Some 1000\<rparr>\<rparr>,
       writes = [(''/movies/heat'', (''cached:heat'', Some 1000))],
       calls = [Load (''cached:heat'', None),
                SyncLoadHistory ((movie ''Heat'' ''db2'')
                  \<lparr>trakt := Trakt \<lparr>entry = ''cached:heat'', watchedAt = None\<rparr>\<rparr>)]\<rparr>)
   \<and> loadTraktItemHistory example_services (movie ''Heat'' ''db2'') Map.empty None =
     (None,
      \<lparr>item = (movie ''Heat'' ''db2'')
                \<lparr>trakt := Trakt \<lparr>entry = ''found:Heat'', watchedAt = Some 1000\<rparr>\<rparr>,
       writes = [(''/movies/heat'', (''found:Heat'', Some 1000))],
       calls = [Find (movie ''Heat'' ''db2'') None,
                SyncLoadHistory ((movie ''Heat'' ''db2'')
                  \<lparr>trakt := Trakt \<lparr>entry = ''found:Heat'', watchedAt = None\<rparr>\<rparr>)]\<rparr>)
   \<and> loadTraktItemHistory example_services (movie ''fail'' ''db3'')
       [''/movies/fail'' \<mapsto> (''cached:fail'', None)] (Some ''tt3'') =
     (None, \<lparr>item = movie ''fail'' ''db3'', writes = [],
             calls = [Find (movie ''fail'' ''db3'') (Some ''tt3'')]\<rparr>)"
proof -
  let ?m = "movie ''Heat'' ''db2''"
  let ?f = "movie ''fail'' ''db3''"
  let ?cache = "[''/movies/heat'' \<mapsto> (''cached:heat'', None :: int option)]"
  let ?fcache = "[''/movies/fail'' \<mapsto> (''cached:fail'', None :: int option)]"
  have u: "\<not> truthy (trakt ?m)" by (simp add: movie_def)
  have uf: "\<not> truthy (trakt ?f)" by (simp add: movie_def)
  have key: "getTraktCacheId ?m = ''/movies/heat''" by code_simp
  have hit: "?cache (getTraktCacheId ?m) = Some (''cached:heat'', None)"
    unfolding key by simp
  have miss: "(Map.empty :: string \<rightharpoonup> string \<times> int option) (getTraktCacheId ?m) = None"
    by simp
  have find_c: "TraktSearch_find example_services ?m (Some ''tt2'') =
      Inr (Trakt \<lparr>entry = ''corrected:tt2'', watchedAt = None\<rparr>)"
    by (simp add: example_services_def movie_def)
  have find_n: "TraktSearch_find example_services ?m None =
      Inr (Trakt \<lparr>entry = ''found:Heat'', watchedAt = None\<rparr>)"
    by (simp add: example_services_def movie_def)
  have find_f: "TraktSearch_find example_services ?f (Some ''tt3'') =
      Inl (Error False ''search failed'')"
    by (simp add: example_services_def movie_def)
  have load_c: "TraktItem_load example_services (''cached:heat'', None) =
      \<lparr>entry = ''cached:heat'', watchedAt = None\<rparr>"
    by (simp add: example_services_def)
  have watched: "load_watched example_services (getTraktCacheId ?m)
        \<lparr>item = ?m\<lparr>trakt := Trakt \<lparr>entry = e, watchedAt = None\<rparr>\<rparr>, writes = [], calls = cs\<rparr> =
      (None,
       \<lparr>item = ?m\<lparr>trakt := Trakt \<lparr>entry = e, watchedAt = Some 1000\<rparr>\<rparr>,
        writes = [(''/movies/heat'', (e, Some 1000))],
        calls = cs @ [SyncLoadHistory (?m\<lparr>trakt := Trakt \<lparr>entry = e, watchedAt = None\<rparr>\<rparr>)]\<rparr>)"
    for e cs
    unfolding key by (simp add: load_watched_def example_services_def movie_def)
  have k1: "loadTraktItemHistory example_services ?m ?cache (Some ''tt2'') =
     (None,
      \<lparr>item = ?m\<lparr>trakt := Trakt \<lparr>entry = ''corrected:tt2'', watchedAt = Some 1000\<rparr>\<rparr>,
       writes = [(''/movies/heat'', (''corrected:tt2'', Some 1000))],
       calls = [Find ?m (Some ''tt2''),
                SyncLoadHistory (?m\<lparr>trakt := Trakt \<lparr>entry = ''corrected:tt2'',
                                                      watchedAt = None\<rparr>\<rparr>)]\<rparr>)"
    using correction_then_cache_then_search [OF u, of "Some ''tt2''" example_services ?cache]
    by (simp add: find_c watched)
  have k2: "loadTraktItemHistory example_services ?m ?cache None =
     (None,
      \<lparr>item = ?m\<lparr>trakt := Trakt \<lparr>entry = ''cached:heat'', watchedAt = Some 1000\<rparr>\<rparr>,
       writes = [(''/movies/heat'', (''cached:heat'', Some 1000))],
       calls = [Load (''cached:heat'', None),
                SyncLoadHistory (?m\<lparr>trakt := Trakt \<lparr>entry = ''cached:heat'',
                                                      watchedAt = None\<rparr>\<rparr>)]\<rparr>)"
    using correction_then_cache_then_search [OF u, of None example_services ?cache] hit
    by (simp add: load_c watched)
  have k3: "loadTraktItemHistory example_services ?m Map.empty None =
     (None,
      \<lparr>item = ?m\<lparr>trakt := Trakt \<lparr>entry = ''found:Heat'', watchedAt = Some 1000\<rparr>\<rparr>,
       writes = [(''/movies/heat'', (''found:Heat'', Some 1000))],
       calls = [Find ?m None,
                SyncLoadHistory (?m\<lparr>trakt := Trakt \<lparr>entry = ''found:Heat'',
                                                      watchedAt = None\<rparr>\<rparr>)]\<rparr>)"
    using correction_then_cache_then_search [OF u, of None example_services Map.empty] miss
    by (simp add: find_n watched)
  have k4: "loadTraktItemHistory example_services ?f ?fcache (Some ''tt3'') =
     (None, \<lparr>item = ?f, writes = [], calls = [Find ?f (Some ''tt3'')]\<rparr>)"
    using correction_then_cache_then_search [OF uf, of "Some ''tt3''" example_services ?fcache]
    by (simp add: find_f)
  from k1 k2 k3 k4 show ?thesis by blast
qed

subsection \<open>A batch of items\<close>

lemma item_history_never_rejects:
  "fst (loadTraktItemHistory S it traktCache correction) = None"
  by (simp add: loadTraktItemHistory_def split: prod.splits option.splits)

lemma first_rejection_none:
  "(\<And>x. x \<in> set xs \<Longrightarrow> fst (f x) = None) \<Longrightarrow> first_rejection (map f xs) = None"
proof (induction xs)
  case Nil
  show ?case by simp
next
  case (Cons x xs)
  then have "fst (f x) = None" by simp
  then obtain r where "f x = (None, r)" by (cases "f x") simp
  with Cons show ?case by simp
qed

text \<open>
  C7: the promise of \<open>loadTraktItemHistory\<close> never rejects; when the resolution of an item
  fails, its \<open>watchedAt\<close> is deleted if it has a catalog entry and the item is otherwise
  left as the failure found it. So, when the storage can be read and written, a batch
  reports no error, persists the cache if an item was missing, and leaves every other item
  as its own resolution leaves it, whatever happened to its siblings.
\<close>

theorem item_failure_is_isolated:
  assumes "BrowserStorage_get B = Inr storage" and "\<forall>c. BrowserStorage_set B c = None"
  shows "fst (loadTraktItemHistory S it traktCache correction) = None
     \<and> (\<forall>err st. loadTraktItemHistory_try S it traktCache correction = (Some err, st) \<longrightarrow>
           loadTraktItemHistory S it traktCache correction =
             (None, st\<lparr>item := delete_watchedAt (item st)\<rparr>) \<and>
           (case trakt (delete_watchedAt (item st)) of
              Trakt t \<Rightarrow> watchedAt t = None \<and> (\<exists>t'. trakt (item st) = Trakt t' \<and> entry t = entry t')
            | other \<Rightarrow> trakt (item st) = other))
     \<and> reported (loadTraktHistory S B its) = []
     \<and> dispatched (loadTraktHistory S B its) = []
     \<and> ((\<exists>x \<in> set its. is_missing x) \<longrightarrow> persisted (loadTraktHistory S B its) \<noteq> None)
     \<and> batch_items (loadTraktHistory S B its) =
         map (\<lambda>x. if is_missing x then
                    item (snd (loadTraktItemHistory S x
                      (case stored_traktCache storage of None \<Rightarrow> Map.empty | Some c \<Rightarrow> c)
                      (case corrections storage of None \<Rightarrow> None | Some cs \<Rightarrow> cs (databaseId x))))
                  else x) its"
proof -
  let ?cache = "case stored_traktCache storage of None \<Rightarrow> Map.empty | Some c \<Rightarrow> c"
  let ?run = "\<lambda>x. loadTraktItemHistory S x ?cache
                 (case corrections storage of None \<Rightarrow> None | Some cs \<Rightarrow> cs (databaseId x))"
  have never: "first_rejection (map ?run xs) = None" for xs
    by (rule first_rejection_none) (rule item_history_never_rejects)
  have a: "fst (loadTraktItemHistory S it traktCache correction) = None"
    by (rule item_history_never_rejects)
  have b: "loadTraktItemHistory S it traktCache correction =
             (None, st\<lparr>item := delete_watchedAt (item st)\<rparr>) \<and>
           (case trakt (delete_watchedAt (item st)) of
              Trakt t \<Rightarrow> watchedAt t = None \<and> (\<exists>t'. trakt (item st) = Trakt t' \<and> entry t = entry t')
            | other \<Rightarrow> trakt (item st) = other)"
    if "loadTraktItemHistory_try S it traktCache correction = (Some err, st)" for err st
    using that
    by (simp add: loadTraktItemHistory_def delete_watchedAt_def split: trakt_field.splits)
  show ?thesis
  proof (cases "filter is_missing its = []")
    case True
    then have none: "\<forall>x \<in> set its. \<not> is_missing x"
      by (simp add: filter_empty_conv)
    then have same: "map (\<lambda>x. if is_missing x then item (snd (?run x)) else x) its = its"
      by (simp add: map_idI)
    have "loadTraktHistory S B its =
        \<lparr>batch_items = its, resolutions = [], persisted = None, reported = [], dispatched = []\<rparr>"
      using True by (simp add: loadTraktHistory_def)
    with a b none same show ?thesis by auto
  next
    case False
    then have some: "\<exists>x \<in> set its. is_missing x"
      by (simp add: filter_empty_conv)
    have "loadTraktHistory S B its =
        \<lparr>batch_items = map (\<lambda>x. if is_missing x then item (snd (?run x)) else x) its,
         resolutions = map snd (map ?run (filter is_missing its)),
         persisted = Some (apply_writes
            (concat (map (\<lambda>p. writes (snd p)) (map ?run (filter is_missing its)))) ?cache),
         reported = [], dispatched = []\<rparr>"
      using False assms never [of "filter is_missing its"]
      by (simp add: loadTraktHistory_def Let_def)
    with a b some show ?thesis by auto
  qed
qed

theorem item_failure_is_isolated_witness:
  "map trakt (batch_items (loadTraktHistory example_services example_browser
       [movie ''Heat'' ''db1'', movie ''fail'' ''db3'', movie ''late'' ''db4'',
        movie ''Heat'' ''db2''])) =
     [Trakt \<lparr>entry = ''cached:heat'', watchedAt = Some 1000\<rparr>,
      Undefined,
      Trakt \<lparr>entry = ''found:late'', watchedAt = None\<rparr>,
      Trakt \<lparr>entry = ''corrected:tt2'', watchedAt = Some 1000\<rparr>]
   \<and> reported (loadTraktHistory example_services example_browser
       [movie ''Heat'' ''db1'', movie ''fail'' ''db3'', movie ''late'' ''db4'',
        movie ''Heat'' ''db2'']) = []
   \<and> dispatched (loadTraktHistory example_services example_browser
       [movie ''Heat'' ''db1'', movie ''fail'' ''db3'', movie ''late'' ''db4'',
        movie ''Heat'' ''db2'']) = []
   \<and> fst (loadTraktItemHistory_try example_services (movie ''late'' ''db4'') Map.empty None) =
       Some (Error False ''history failed'')
   \<and> trakt (item (snd (loadTraktItemHistory_try example_services (movie ''late'' ''db4'')
        Map.empty None))) = Trakt \<lparr>entry = ''found:late'', watchedAt = Some 1000\<rparr>
   \<and> loadTraktItemHistory example_services (movie ''late'' ''db4'') Map.empty None =
       (None, (snd (loadTraktItemHistory_try example_services (movie ''late'' ''db4'')
                  Map.empty None))
              \<lparr>item := delete_watchedAt (item (snd (loadTraktItemHistory_try example_services
                  (movie ''late'' ''db4'') Map.empty None)))\<rparr>)"
proof -
  let ?its = "[movie ''Heat'' ''db1'', movie ''fail'' ''db3'', movie ''late'' ''db4'',
        movie ''Heat'' ''db2'']"
  let ?storage = "\<lparr>corrections = Some [''db2'' \<mapsto> ''tt2''],
             stored_traktCache = Some [''/movies/heat'' \<mapsto> (''cached:heat'', None :: int option)]\<rparr>"
  let ?late = "loadTraktItemHistory_try example_services (movie ''late'' ''db4'') Map.empty None"
  have g: "BrowserStorage_get example_browser = Inr ?storage"
    by (simp add: example_browser_def)
  have s: "\<forall>c. BrowserStorage_set example_browser c = None"
    by (simp add: example_browser_def)
  note th = item_failure_is_isolated [OF g s, of example_services "movie ''late'' ''db4''"
      Map.empty None ?its]
  have ev: "map (\<lambda>x. trakt (if is_missing x then
                    item (snd (loadTraktItemHistory example_services x
                      (case stored_traktCache ?storage of None \<Rightarrow> Map.empty | Some c \<Rightarrow> c)
                      (case corrections ?storage of None \<Rightarrow> None | Some cs \<Rightarrow> cs (databaseId x))))
                  else x)) ?its =
     [Trakt \<lparr>entry = ''cached:heat'', watchedAt = Some 1000\<rparr>,
      Undefined,
      Trakt \<lparr>entry = ''found:late'', watchedAt = None\<rparr>,
      Trakt \<lparr>entry = ''corrected:tt2'', watchedAt = Some 1000\<rparr>]"
    by code_simp
  have k1: "map trakt (batch_items (loadTraktHistory example_services example_browser ?its)) =
     [Trakt \<lparr>entry = ''cached:heat'', watchedAt = Some 1000\<rparr>,
      Undefined,
      Trakt \<lparr>entry = ''found:late'', watchedAt = None\<rparr>,
      Trakt \<lparr>entry = ''corrected:tt2'', watchedAt = Some 1000\<rparr>]"
    using th ev by (simp only: map_map o_def)
  have k2: "reported (loadTraktHistory example_services example_browser ?its) = []"
    using th by blast
  have k3: "dispatched (loadTraktHistory example_services example_browser ?its) = []"
    using th by blast
  have k4: "fst ?late = Some (Error False ''history failed'')"
    by code_simp
  have k5: "trakt (item (snd ?late)) = Trakt \<lparr>entry = ''found:late'', watchedAt = Some 1000\<rparr>"
    by code_simp
  have "?late = (Some (Error False ''history failed''), snd ?late)"
    using k4 by (cases ?late) simp
  with th have k6: "loadTraktItemHistory example_services (movie ''late'' ''db4'') Map.empty None =
       (None, (snd ?late)\<lparr>item := delete_watchedAt (item (snd ?late))\<rparr>)"
    by blast
  from k1 k2 k3 k4 k5 k6 show ?thesis by blast
qed

end
